theory Spec2Isabelle
  imports Main
begin

section \<open>Python strings\<close>

text \<open>
  A Python \<open>str\<close> is modelled as a \<open>string\<close>: the list of the UTF-8 bytes of the text.
  A substring, a prefix and a single ASCII character are found in the bytes exactly
  where they are found in the text. The whitespace of \<open>str.strip()\<close> and the line
  boundaries of \<open>str.splitlines()\<close> are Python's, written as byte sequences. Which
  characters outside ASCII are alphanumeric is a table of the Unicode database, taken as
  a parameter. \<open>lower\<close> changes the ASCII letters only: the code compares lower-cased
  text with ASCII literals only, and the two characters outside ASCII whose lower case
  holds an ASCII letter (U+0130, U+212A) give an \<open>i\<close> followed by a combining mark and a
  \<open>k\<close>, which complete none of these literals.
\<close>

definition LF :: char where
  "LF = CHR 0x0A"

definition CR :: char where
  "CR = CHR 0x0D"

text \<open>\<open>str.lower()\<close>, one character at a time.\<close>

definition lower_char :: "char \<Rightarrow> char" where
  "lower_char c =
     (case map_of (zip ''ABCDEFGHIJKLMNOPQRSTUVWXYZ'' ''abcdefghijklmnopqrstuvwxyz'') c of
        Some d \<Rightarrow> d
      | None \<Rightarrow> c)"

definition lower :: "string \<Rightarrow> string" where
  "lower s = map lower_char s"

text \<open>\<open>s.startswith(p)\<close>.\<close>

definition startswith :: "string \<Rightarrow> string \<Rightarrow> bool" where
  "startswith s p = (take (length p) s = p)"

text \<open>Python's substring test \<open>k in q\<close>.\<close>

fun str_in :: "string \<Rightarrow> string \<Rightarrow> bool" where
  "str_in k [] = (k = [])"
| "str_in k (c # cs) = (startswith (c # cs) k \<or> str_in k cs)"

text \<open>\<open>any(k in q for k in ks)\<close>.\<close>

definition any_in :: "string list \<Rightarrow> string \<Rightarrow> bool" where
  "any_in ks q = list_ex (\<lambda>k. str_in k q) ks"

text \<open>
  The characters of a text: in UTF-8 every character is one byte that is no
  continuation byte (\<open>10xxxxxx\<close>), followed by its continuation bytes. \<open>len(s)\<close> is the
  number of characters.
\<close>

definition is_cont :: "char \<Rightarrow> bool" where
  "is_cont c = (digit7 c \<and> \<not> digit6 c)"

function code_points :: "string \<Rightarrow> string list" where
  "code_points [] = []"
| "code_points (c # cs) = (c # takeWhile is_cont cs) # code_points (dropWhile is_cont cs)"
  by pat_completeness auto
termination
  by (relation "measure length") (auto simp: length_dropWhile_le less_Suc_eq_le)

definition str_len :: "string \<Rightarrow> nat" where
  "str_len s = length (code_points s)"

text \<open>
  The whitespace that \<open>str.strip()\<close> removes, in UTF-8: the ASCII characters tab, line
  feed, vertical tab, form feed, carriage return, 0x1C to 0x1F and space, then U+0085,
  U+00A0, U+1680, U+2000 to U+200A, U+2028, U+2029, U+202F, U+205F and U+3000.
\<close>

definition space_codes :: "string list" where
  "space_codes =
     [[CHR 0x09], [CHR 0x0A], [CHR 0x0B], [CHR 0x0C], [CHR 0x0D],
      [CHR 0x1C], [CHR 0x1D], [CHR 0x1E], [CHR 0x1F], [CHR 0x20],
      [CHR 0xC2, CHR 0x85], [CHR 0xC2, CHR 0xA0], [CHR 0xE1, CHR 0x9A, CHR 0x80],
      [CHR 0xE2, CHR 0x80, CHR 0x80], [CHR 0xE2, CHR 0x80, CHR 0x81],
      [CHR 0xE2, CHR 0x80, CHR 0x82], [CHR 0xE2, CHR 0x80, CHR 0x83],
      [CHR 0xE2, CHR 0x80, CHR 0x84], [CHR 0xE2, CHR 0x80, CHR 0x85],
      [CHR 0xE2, CHR 0x80, CHR 0x86], [CHR 0xE2, CHR 0x80, CHR 0x87],
      [CHR 0xE2, CHR 0x80, CHR 0x88], [CHR 0xE2, CHR 0x80, CHR 0x89],
      [CHR 0xE2, CHR 0x80, CHR 0x8A], [CHR 0xE2, CHR 0x80, CHR 0xA8],
      [CHR 0xE2, CHR 0x80, CHR 0xA9], [CHR 0xE2, CHR 0x80, CHR 0xAF],
      [CHR 0xE2, CHR 0x81, CHR 0x9F], [CHR 0xE3, CHR 0x80, CHR 0x80]]"

text \<open>
  Removing, from the front of a text, every leading occurrence of one of the given
  byte sequences. \<open>lstrip\<close> does so with the whitespace; \<open>rstrip\<close> does the same from
  the end; \<open>str.strip()\<close> is both.
\<close>

function strip_codes :: "string list \<Rightarrow> string \<Rightarrow> string" where
  "strip_codes codes s =
     (case find (\<lambda>w. w \<noteq> [] \<and> startswith s w) codes of
        None \<Rightarrow> s
      | Some w \<Rightarrow> strip_codes codes (drop (length w) s))"
  by pat_completeness auto
termination
proof (relation "measure (\<lambda>(codes, s). length s)")
  show "wf (measure (\<lambda>(codes, s). length s))" by simp
next
  fix codes :: "string list" and s w :: string
  assume "find (\<lambda>w. w \<noteq> [] \<and> startswith s w) codes = Some w"
  then have "w \<noteq> []" and "startswith s w"
    by (auto simp: find_Some_iff)
  then have "s \<noteq> []" by (auto simp: startswith_def)
  then show "((codes, drop (length w) s), (codes, s)) \<in> measure (\<lambda>(codes, s). length s)"
    using \<open>w \<noteq> []\<close> by simp
qed

declare strip_codes.simps [simp del]

definition lstrip :: "string \<Rightarrow> string" where
  "lstrip s = strip_codes space_codes s"

definition rstrip :: "string \<Rightarrow> string" where
  "rstrip s = rev (strip_codes (map rev space_codes) (rev s))"

definition strip :: "string \<Rightarrow> string" where
  "strip s = rstrip (lstrip s)"

text \<open>
  \<open>str.splitlines()\<close>: a line ends at a line feed, a carriage return (with the line
  feed that follows it, if any), a vertical tab, a form feed, one of the separators
  0x1C, 0x1D, 0x1E, or one of U+0085, U+2028, U+2029. The boundaries are dropped, and
  text after the last boundary is a line only when it is not empty. The first argument
  is the current line, reversed.
\<close>

definition is_linebreak :: "char \<Rightarrow> bool" where
  "is_linebreak c = (c \<in> set [CHR 0x0A, CHR 0x0B, CHR 0x0C, CHR 0x0D,
                               CHR 0x1C, CHR 0x1D, CHR 0x1E])"

definition wide_linebreaks :: "string list" where
  "wide_linebreaks = [[CHR 0xC2, CHR 0x85], [CHR 0xE2, CHR 0x80, CHR 0xA8],
                      [CHR 0xE2, CHR 0x80, CHR 0xA9]]"

function splitlines_from :: "string \<Rightarrow> string \<Rightarrow> string list" where
  "splitlines_from acc [] = (if acc = [] then [] else [rev acc])"
| "splitlines_from acc (c # cs) =
     (if c = CR then
        (case cs of
           [] \<Rightarrow> [rev acc]
         | d # ds \<Rightarrow> if d = LF then rev acc # splitlines_from [] ds
                     else rev acc # splitlines_from [] (d # ds))
      else if is_linebreak c then rev acc # splitlines_from [] cs
      else
        (case find (\<lambda>w. startswith (c # cs) w) wide_linebreaks of
           Some w \<Rightarrow> rev acc # splitlines_from [] (drop (length w) (c # cs))
         | None \<Rightarrow> splitlines_from (c # acc) cs))"
  by pat_completeness auto
termination
proof (relation "measure (\<lambda>(acc, s). length s)", goal_cases)
  case (6 acc c cs w)
  then have "w \<in> set wide_linebreaks" by (auto simp: find_Some_iff)
  then have "w \<noteq> []" by (auto simp: wide_linebreaks_def)
  then show ?case by simp
qed auto

definition splitlines :: "string \<Rightarrow> string list" where
  "splitlines s = splitlines_from [] s"

text \<open>\<open>sep.join(xs)\<close>.\<close>

fun join :: "string \<Rightarrow> string list \<Rightarrow> string" where
  "join sep [] = []"
| "join sep [x] = x"
| "join sep (x # y # ys) = x @ sep @ join sep (y # ys)"

text \<open>
  The word characters of \<open>\w\<close> in a pattern on a \<open>str\<close>: the underscore and every
  character that \<open>str.isalnum()\<close> accepts. In ASCII these are the letters, the digits
  and the underscore; for a character outside ASCII, given by its bytes, the parameter
  \<open>alnum\<close> answers.
\<close>

definition is_word_char :: "char \<Rightarrow> bool" where
  "is_word_char c =
     (c \<in> set (''abcdefghijklmnopqrstuvwxyz'' @ ''ABCDEFGHIJKLMNOPQRSTUVWXYZ'' @
               ''0123456789'' @ ''_''))"

definition is_word :: "(string \<Rightarrow> bool) \<Rightarrow> string \<Rightarrow> bool" where
  "is_word alnum cp =
     (case cp of
        [c] \<Rightarrow> if digit7 c then alnum cp else is_word_char c
      | _ \<Rightarrow> alnum cp)"

text \<open>
  The maximal runs of elements that satisfy \<open>P\<close>, left to right; the first argument is
  the current run, reversed. \<open>re.findall(r"\w+", s)\<close> is the maximal runs of word
  characters of \<open>s\<close>.
\<close>

fun runs_from :: "('a \<Rightarrow> bool) \<Rightarrow> 'a list \<Rightarrow> 'a list \<Rightarrow> 'a list list" where
  "runs_from P acc [] = (if acc = [] then [] else [rev acc])"
| "runs_from P acc (x # xs) =
     (if P x then runs_from P (x # acc) xs
      else if acc = [] then runs_from P [] xs
      else rev acc # runs_from P [] xs)"

definition findall_word :: "(string \<Rightarrow> bool) \<Rightarrow> string \<Rightarrow> string list" where
  "findall_word alnum s = map concat (runs_from (is_word alnum) [] (code_points s))"

section \<open>Intent resolution and query classification (main.py)\<close>

text \<open>
  The dict returned by \<open>parse_intent\<close>, read with \<open>.get\<close>: a key that is absent or
  bound to \<open>None\<close> reads as \<open>None\<close>.
\<close>

record intent =
  action :: "string option"
  sql :: "string option"
  explain :: "string option"

definition canned :: "string \<Rightarrow> string \<Rightarrow> intent" where
  "canned s e = \<lparr>action = Some ''sql'', sql = Some s, explain = Some e\<rparr>"

definition no_intent :: intent where
  "no_intent = \<lparr>action = None, sql = None, explain = None\<rparr>"

definition parse_intent :: "string \<Rightarrow> intent" where
  "parse_intent query =
     (let q = lower query in
      if any_in [''name'', ''names'', ''list names'', ''just tell me the names'',
                 ''tell me the names'', ''all the people''] q
      then canned ''SELECT id, name FROM people_info;'' ''list of names''
      else if any_in [''company'', ''companies'', ''list companies'', ''which companies''] q
      then canned (''SELECT DISTINCT company FROM people_info WHERE company IS NOT NULL '' @
                   ''AND company != '' @ [CHR 0x27, CHR 0x27] @ '';'') ''distinct companies''
      else if any_in [''role'', ''roles'', ''list roles'', ''what roles''] q
      then canned (''SELECT DISTINCT role FROM people_info WHERE role IS NOT NULL '' @
                   ''AND role != '' @ [CHR 0x27, CHR 0x27] @ '';'') ''distinct roles''
      else if any_in [''age'', ''ages'', ''list ages'', ''show ages''] q \<and>
              any_in [''list'', ''show'', ''names'', ''just''] q
      then canned ''SELECT id, name, age FROM people_info;'' ''names and ages''
      else if str_in ''count'' q \<or> any_in [''how many'', ''total number'', ''number of''] q
      then canned ''SELECT COUNT(*) FROM people_info;'' ''count''
      else if any_in [''sum of age'', ''sum of ages'', ''total age'', ''total of ages'',
                      ''sum ages''] q
      then canned ''SELECT SUM(age) FROM people_info;'' ''sum of ages''
      else if any_in [''average age'', ''avg age'', ''average of ages'', ''mean age''] q
      then canned ''SELECT AVG(age) FROM people_info;'' ''average age''
      else if any_in [''max age'', ''maximum age'', ''oldest''] q
      then canned ''SELECT MAX(age) FROM people_info;'' ''maximum age''
      else if any_in [''min age'', ''minimum age'', ''youngest''] q
      then canned ''SELECT MIN(age) FROM people_info;'' ''minimum age''
      else no_intent)"

definition analytical_keywords :: "string list" where
  "analytical_keywords =
     [''how many'', ''count'', ''average'', ''sum'', ''total'', ''rows'', ''maximum'',
      ''minimum'', ''number of'', ''total number'', ''age'', ''salary'']"

definition detect_query_type :: "string \<Rightarrow> string" where
  "detect_query_type query =
     (if list_ex (\<lambda>word. str_in word (lower query)) analytical_keywords
      then ''sql_query'' else ''retrieval'')"

section \<open>The SQL generator and its sanitizer (gemini_generator.py)\<close>

text \<open>
  The sanitizing tail of \<open>generate_sql\<close>, applied to the text of the model's response:
  \<open>unfenced\<close> is lines 76 to 87 (trimming, the fence, the language tag), \<open>sanitize\<close>
  adds the return expression of line 89. \<open>split("\n", 1)[1]\<close> is the text after the
  first line feed, which exists under its guard; \<open>split(';')[0]\<close> is the text before
  the first semicolon.
\<close>

definition fence :: string where
  "fence = [CHR 0x60, CHR 0x60, CHR 0x60]"

definition unfenced :: "string \<Rightarrow> string" where
  "unfenced response_text =
     (let sql_text = strip response_text;
          sql_text =
            (if startswith sql_text fence then
               (let lines = splitlines sql_text;
                    lines = (if lines \<noteq> [] \<and> startswith (hd lines) fence
                             then tl lines else lines);
                    lines = (if lines \<noteq> [] \<and> startswith (last lines) fence
                             then butlast lines else lines)
                in strip (join [LF] lines))
             else sql_text)
      in if startswith (lower sql_text) (''sql'' @ [LF])
         then strip (drop 1 (dropWhile (\<lambda>c. c \<noteq> LF) sql_text))
         else sql_text)"

definition sanitize :: "string \<Rightarrow> string" where
  "sanitize response_text =
     strip (takeWhile (\<lambda>c. c \<noteq> CHR '';'') (unfenced response_text)) @ '';''"

definition sql_prompt :: "string \<Rightarrow> string" where
  "sql_prompt query =
     [LF] @ ''    You are an expert MySQL assistant. '' @
     [LF] @ ''    Convert the following natural language question into a valid SQL query '' @
     [LF] @ ''    for a table named '' @ [CHR 0x60] @ ''people_info'' @ [CHR 0x60] @
            '' with columns: name, age, company, role, background.'' @
     [LF] @ ''    '' @
     [LF] @ ''    Question: '' @ query @
     [LF] @ ''    Return only the SQL query, nothing else.'' @
     [LF] @ ''    ''"

text \<open>Decimal digits of a natural number, for \<open>f"col{i}"\<close>.\<close>

function str_nat :: "nat \<Rightarrow> string" where
  "str_nat n =
     (if n < 10 then [''0123456789'' ! n]
      else str_nat (n div 10) @ [''0123456789'' ! (n mod 10)])"
  by pat_completeness auto
termination
  by (relation "measure id") auto

section \<open>The world outside: database driver and language model\<close>

text \<open>
  An exception is modelled by its message, the \<open>str(e)\<close> that the handlers read. The
  collaborators (\<open>db_config.get_connection\<close>, the connection and cursor objects of the
  database driver, the generative model) act on a world state \<open>'w\<close>; each call either
  raises (\<open>Inl\<close>) or returns (\<open>Inr\<close>), and may change the world. \<open>'v\<close> is the type of a
  column value, a row is a \<open>'v list\<close>. \<open>str_val\<close> and \<open>str_row\<close> are Python's \<open>str\<close>
  of a column value and of a row (a tuple, whose \<open>str\<close> and \<open>repr\<close> agree).
  \<open>unicode_alnum\<close> is \<open>str.isalnum()\<close> on a character outside ASCII, given by its
  UTF-8 bytes: the table of the Unicode database that \<open>\w\<close> reads.
\<close>

type_synonym exn = string

record ('w, 'v) env =
  get_connection :: "'w \<Rightarrow> (exn + unit) \<times> 'w"
  conn_cursor :: "'w \<Rightarrow> (exn + unit) \<times> 'w"
  cursor_execute :: "string \<Rightarrow> string list \<Rightarrow> 'w \<Rightarrow> (exn + unit) \<times> 'w"
  cursor_fetchall :: "'w \<Rightarrow> (exn + 'v list list) \<times> 'w"
  cursor_close :: "'w \<Rightarrow> (exn + unit) \<times> 'w"
  conn_close :: "'w \<Rightarrow> (exn + unit) \<times> 'w"
  generate_content :: "string \<Rightarrow> 'w \<Rightarrow> (exn + string) \<times> 'w"
  str_val :: "'v \<Rightarrow> string"
  str_row :: "'v list \<Rightarrow> string"
  unicode_alnum :: "string \<Rightarrow> bool"

text \<open>
  Every call of a collaborator is recorded, in order, in the trace of the state, and so
  is every \<open>print\<close>, with the text printed.
\<close>

datatype event =
    Connect
  | Cursor
  | Execute string "string list"
  | Fetchall
  | CursorClose
  | ConnClose
  | GenerateContent string
  | Print string

record 'w state =
  world :: 'w
  trace :: "event list"

definition call ::
  "event \<Rightarrow> ('w \<Rightarrow> (exn + 'a) \<times> 'w) \<Rightarrow> ('w, 'z) state_scheme \<Rightarrow>
   (exn + 'a) \<times> ('w, 'z) state_scheme" where
  "call ev f s =
     (case f (world s) of (r, w) \<Rightarrow> (r, s\<lparr>world := w, trace := trace s @ [ev]\<rparr>))"

text \<open>Sequencing: an exception of the first computation skips the second.\<close>

definition bindE ::
  "('s \<Rightarrow> (exn + 'a) \<times> 's) \<Rightarrow> ('a \<Rightarrow> 's \<Rightarrow> (exn + 'b) \<times> 's) \<Rightarrow> 's \<Rightarrow> (exn + 'b) \<times> 's" where
  "bindE m f s = (case m s of (Inl e, s') \<Rightarrow> (Inl e, s') | (Inr a, s') \<Rightarrow> f a s')"

definition ret :: "'a \<Rightarrow> 's \<Rightarrow> (exn + 'a) \<times> 's" where
  "ret a s = (Inr a, s)"

definition execute ::
  "('w, 'v) env \<Rightarrow> string \<Rightarrow> string list \<Rightarrow> ('w, 'z) state_scheme \<Rightarrow>
   (exn + unit) \<times> ('w, 'z) state_scheme" where
  "execute E stmt params = call (Execute stmt params) (cursor_execute E stmt params)"

definition fetchall ::
  "('w, 'v) env \<Rightarrow> ('w, 'z) state_scheme \<Rightarrow> (exn + 'v list list) \<times> ('w, 'z) state_scheme" where
  "fetchall E = call Fetchall (cursor_fetchall E)"

definition generate_sql ::
  "('w, 'v) env \<Rightarrow> string \<Rightarrow> ('w, 'z) state_scheme \<Rightarrow> (exn + string) \<times> ('w, 'z) state_scheme" where
  "generate_sql E query =
     (let prompt = sql_prompt query in
      bindE (call (GenerateContent prompt) (generate_content E prompt))
        (\<lambda>response_text. ret (sanitize response_text)))"

text \<open>\<open>str\<close> of a list of rows: the \<open>repr\<close> of its rows, separated by commas, in brackets.\<close>

definition str_rows :: "('w, 'v) env \<Rightarrow> 'v list list \<Rightarrow> string" where
  "str_rows E rows = ''['' @ join '', '' (map (str_row E) rows) @ '']''"

definition explain_sql_result ::
  "('w, 'v) env \<Rightarrow> 'v list list \<Rightarrow> string \<Rightarrow> ('w, 'z) state_scheme \<Rightarrow>
   (exn + string) \<times> ('w, 'z) state_scheme" where
  "explain_sql_result E result query =
     (let prompt = ''Based on this SQL result '' @ str_rows E result @
                   '', answer the question: '' @ query in
      call (GenerateContent prompt) (generate_content E prompt))"

text \<open>\<open>generate_answer\<close> on a list of rows, the only kind of context the pipeline passes.\<close>

definition generate_answer ::
  "('w, 'v) env \<Rightarrow> string \<Rightarrow> 'v list list \<Rightarrow> ('w, 'z) state_scheme \<Rightarrow>
   (exn + string) \<times> ('w, 'z) state_scheme" where
  "generate_answer E user_query context =
     (let cols = [''id'', ''name'', ''age'', ''height'', ''weight'', ''company'', ''role'',
                  ''background''];
          formatted_rows =
            map (\<lambda>row. join '', ''
                   (map (\<lambda>(i, val).
                           (if i < length cols then cols ! i else ''col'' @ str_nat i) @
                           '': '' @ str_val E val)
                      (enumerate 0 row)))
              context;
          readable_context = join [LF] formatted_rows;
          prompt =
            [LF] @ ''You are a helpful AI assistant. Use the following context from the '' @
                   ''MySQL database to answer the question concisely.'' @
            [LF] @
            [LF] @ ''Context (structured):'' @
            [LF] @ readable_context @
            [LF] @
            [LF] @ ''Question: '' @ user_query @
            [LF] @
            [LF] @ ''Please answer in natural language. Do not repeat raw tuples; '' @
                   ''summarize the most relevant record(s) as a short paragraph.'' @
            [LF]
      in call (GenerateContent prompt) (generate_content E prompt))"

section \<open>Retrieval and guarded execution (main.py)\<close>

definition STOPWORDS :: "string list" where
  "STOPWORDS = [''who'', ''is'', ''what'', ''the'', ''a'', ''an'', ''of'', ''in'', ''on'',
                ''at'', ''for'', ''to'']"

definition like_query :: string where
  "like_query =
     [LF] @ ''        SELECT * FROM people_info'' @
     [LF] @ ''        WHERE name LIKE %s'' @
     [LF] @ ''        OR company LIKE %s'' @
     [LF] @ ''        OR role LIKE %s'' @
     [LF] @ ''        OR background LIKE %s;'' @
     [LF] @ ''    ''"

text \<open>
  The key of a row in the dict \<open>found\<close>: \<open>row[0] if len(row) > 0 else row\<close>.
\<close>

datatype 'v key = First 'v | Whole "'v list"

definition row_key :: "'v list \<Rightarrow> 'v key" where
  "row_key row = (case row of [] \<Rightarrow> Whole row | x # _ \<Rightarrow> First x)"

text \<open>
  A Python dict keeps its keys in the order of their first insertion: \<open>d[k] = v\<close>
  replaces the value of a key already there, in place, and appends a new key.
\<close>

fun dict_set :: "'k \<Rightarrow> 'a \<Rightarrow> ('k \<times> 'a) list \<Rightarrow> ('k \<times> 'a) list" where
  "dict_set k v [] = [(k, v)]"
| "dict_set k v ((k', v') # d) = (if k' = k then (k, v) # d else (k', v') # dict_set k v d)"

definition dict_values :: "('k \<times> 'a) list \<Rightarrow> 'a list" where
  "dict_values d = map snd d"

text \<open>The loop \<open>for token in tokens\<close> of \<open>retrieve_from_db\<close>, with the dict \<open>found\<close>.\<close>

fun token_loop ::
  "('w, 'v) env \<Rightarrow> string list \<Rightarrow> ('v key \<times> 'v list) list \<Rightarrow> ('w, 'z) state_scheme \<Rightarrow>
   (exn + ('v key \<times> 'v list) list) \<times> ('w, 'z) state_scheme" where
  "token_loop E [] found = ret found"
| "token_loop E (token # tokens) found =
     (let w = ''%'' @ token @ ''%'' in
      bindE (execute E like_query [w, w, w, w]) (\<lambda>_.
      bindE (fetchall E) (\<lambda>rows.
      token_loop E tokens (fold (\<lambda>row found. dict_set (row_key row) row found) rows found))))"

definition retrieve_from_db ::
  "('w, 'v) env \<Rightarrow> string \<Rightarrow> ('w, 'z) state_scheme \<Rightarrow>
   (exn + 'v list list) \<times> ('w, 'z) state_scheme" where
  "retrieve_from_db E query =
     (let normalized = lower query in
      if (str_in ''name'' normalized \<or> str_in ''names'' normalized) \<and>
         any_in [''all'', ''list'', ''tell'', ''show'', ''just''] normalized
      then bindE (execute E ''SELECT id, name FROM people_info;'' []) (\<lambda>_. fetchall E)
      else
        (let wildcard = ''%'' @ query @ ''%'' in
         bindE (execute E like_query [wildcard, wildcard, wildcard, wildcard]) (\<lambda>_.
         bindE (fetchall E) (\<lambda>results.
         if results = [] then
           (let tokens = filter (\<lambda>t. lower t \<notin> set STOPWORDS \<and> str_len t > 2)
                           (findall_word (unicode_alnum E) query) in
            bindE (token_loop E tokens []) (\<lambda>found.
            if found \<noteq> [] then ret (dict_values found) else ret results))
         else ret results))))"

text \<open>What \<open>execute_sql\<close> returns: the rows, or a message.\<close>

datatype 'v sql_value = Rows "'v list list" | Text string

definition execute_sql ::
  "('w, 'v) env \<Rightarrow> string \<Rightarrow> ('w, 'z) state_scheme \<Rightarrow>
   (exn + 'v sql_value) \<times> ('w, 'z) state_scheme" where
  "execute_sql E stmt s =
     (if \<not> startswith (lower stmt) ''select''
      then (Inr (Text '' Only SELECT queries are allowed for safety.''), s)
      else
        (case bindE (execute E stmt []) (\<lambda>_. fetchall E) s of
           (Inr result, s') \<Rightarrow> (Inr (Rows result), s')
         | (Inl e, s') \<Rightarrow>
             (Inr (Text ([CHR 0xE2, CHR 0x9A, CHR 0xA0, CHR 0xEF, CHR 0xB8, CHR 0x8F] @
                         ''SQL Error: '' @ e)), s')))"

section \<open>The pipeline (main.py)\<close>

text \<open>The dict \<open>out\<close> of \<open>run_query\<close>; \<open>None\<close> is \<open>None\<close>.\<close>

record 'v pipeline_result =
  generated_sql :: "string option"
  sql_result :: "'v sql_value option"
  retrieved_context :: "'v list list option"
  model_answer :: "string option"
  error :: "string option"

definition empty_result :: "'v pipeline_result" where
  "empty_result = \<lparr>generated_sql = None, sql_result = None, retrieved_context = None,
                    model_answer = None, error = None\<rparr>"

text \<open>
  Inside \<open>run_query\<close> the state also holds the local variable \<open>out\<close>, so that the
  handler finds it as the assignments before the exception left it.
\<close>

record ('w, 'v) run_state = "'w state" +
  out :: "'v pipeline_result"

definition assign ::
  "('v pipeline_result \<Rightarrow> 'v pipeline_result) \<Rightarrow> ('w, 'v) run_state \<Rightarrow>
   (exn + unit) \<times> ('w, 'v) run_state" where
  "assign f s = (Inr (), s\<lparr>out := f (out s)\<rparr>)"

text \<open>
  The body of the \<open>try\<close> statement of \<open>run_query\<close> (lines 181 to 215). A canned intent
  whose \<open>sql\<close> is \<open>None\<close> would make \<open>execute_sql\<close> raise on \<open>sql.lower()\<close>.
\<close>

definition run_query_try ::
  "('w, 'v) env \<Rightarrow> string \<Rightarrow> ('w, 'v) run_state \<Rightarrow> (exn + unit) \<times> ('w, 'v) run_state" where
  "run_query_try E user_query =
     bindE (call Connect (get_connection E)) (\<lambda>_.
     bindE (call Cursor (conn_cursor E)) (\<lambda>_.
     (let query_type = detect_query_type user_query in
      if query_type = ''retrieval'' then
        (let intent = parse_intent user_query in
         if action intent = Some ''sql'' then
           bindE (assign (\<lambda>out. out\<lparr>generated_sql := sql intent\<rparr>)) (\<lambda>_.
           bindE (case sql intent of
                    Some stmt \<Rightarrow> execute_sql E stmt
                  | None \<Rightarrow> (\<lambda>s. (Inl ''AttributeError'', s))) (\<lambda>result.
           bindE (assign (\<lambda>out. out\<lparr>sql_result := Some result\<rparr>)) (\<lambda>_.
           bindE (case result of
                    Rows rows \<Rightarrow>
                      bindE (explain_sql_result E rows user_query) (\<lambda>answer.
                      assign (\<lambda>out. out\<lparr>model_answer := Some answer\<rparr>))
                  | Text _ \<Rightarrow> ret ()) (\<lambda>_.
           bindE (call CursorClose (cursor_close E)) (\<lambda>_.
           call ConnClose (conn_close E))))))
         else
           bindE (retrieve_from_db E user_query) (\<lambda>results.
           bindE (if results = [] then
                    assign (\<lambda>out. out\<lparr>model_answer := Some ''No relevant data found.''\<rparr>)
                  else
                    bindE (assign (\<lambda>out. out\<lparr>retrieved_context := Some results\<rparr>)) (\<lambda>_.
                    bindE (generate_answer E user_query results) (\<lambda>answer.
                    assign (\<lambda>out. out\<lparr>model_answer := Some answer\<rparr>)))) (\<lambda>_.
           bindE (call CursorClose (cursor_close E)) (\<lambda>_.
           call ConnClose (conn_close E)))))
      else if query_type = ''sql_query'' then
        bindE (generate_sql E user_query) (\<lambda>stmt.
        bindE (assign (\<lambda>out. out\<lparr>generated_sql := Some stmt\<rparr>)) (\<lambda>_.
        bindE (execute_sql E stmt) (\<lambda>result.
        bindE (assign (\<lambda>out. out\<lparr>sql_result := Some result\<rparr>)) (\<lambda>_.
        bindE (case result of
                 Rows rows \<Rightarrow>
                   bindE (explain_sql_result E rows user_query) (\<lambda>answer.
                   assign (\<lambda>out. out\<lparr>model_answer := Some answer\<rparr>))
               | Text _ \<Rightarrow> ret ()) (\<lambda>_.
        bindE (call CursorClose (cursor_close E)) (\<lambda>_.
        call ConnClose (conn_close E)))))))
      else
        bindE (call CursorClose (cursor_close E)) (\<lambda>_.
        call ConnClose (conn_close E)))))"

text \<open>
  \<open>run_query\<close>: \<open>out\<close> starts with every field \<open>None\<close>; an exception of the body is
  caught and its message stored in \<open>out["error"]\<close>; \<open>out\<close> is returned.
\<close>

definition run_query ::
  "('w, 'v) env \<Rightarrow> string \<Rightarrow> 'w state \<Rightarrow> 'v pipeline_result \<times> 'w state" where
  "run_query E user_query s0 =
     (case run_query_try E user_query \<lparr>world = world s0, trace = trace s0, out = empty_result\<rparr> of
        (Inr _, s) \<Rightarrow> (out s, \<lparr>world = world s, trace = trace s\<rparr>)
      | (Inl e, s) \<Rightarrow> ((out s)\<lparr>error := Some e\<rparr>, \<lparr>world = world s, trace = trace s\<rparr>))"

text \<open>
  \<open>rag_pipeline\<close>, the console variant: the same routing, printing instead of filling a
  dict, and no handler, so that an exception leaves the function. \<open>print\<close> itself is
  taken not to raise.
\<close>

definition py_print ::
  "string \<Rightarrow> ('w, 'z) state_scheme \<Rightarrow> (exn + unit) \<times> ('w, 'z) state_scheme" where
  "py_print text s = (Inr (), s\<lparr>trace := trace s @ [Print text]\<rparr>)"

definition str_sql_value :: "('w, 'v) env \<Rightarrow> 'v sql_value \<Rightarrow> string" where
  "str_sql_value E result = (case result of Rows rows \<Rightarrow> str_rows E rows | Text t \<Rightarrow> t)"

definition rag_pipeline ::
  "('w, 'v) env \<Rightarrow> string \<Rightarrow> ('w, 'z) state_scheme \<Rightarrow> (exn + unit) \<times> ('w, 'z) state_scheme" where
  "rag_pipeline E user_query =
     bindE (call Connect (get_connection E)) (\<lambda>_.
     bindE (call Cursor (conn_cursor E)) (\<lambda>_.
     (let query_type = detect_query_type user_query in
      if query_type = ''retrieval'' then
        (let intent = parse_intent user_query in
         if action intent = Some ''sql'' then
           bindE (py_print ([LF] @ ''--- Generated SQL ---'' @ [LF] @
                    (case sql intent of Some stmt \<Rightarrow> stmt | None \<Rightarrow> ''None''))) (\<lambda>_.
           bindE (case sql intent of
                    Some stmt \<Rightarrow> execute_sql E stmt
                  | None \<Rightarrow> (\<lambda>s. (Inl ''AttributeError'', s))) (\<lambda>result.
           bindE (py_print ([LF] @ ''--- SQL Query Result ---'')) (\<lambda>_.
           bindE (py_print (str_sql_value E result)) (\<lambda>_.
           bindE (case result of
                    Rows rows \<Rightarrow>
                      bindE (explain_sql_result E rows user_query) (\<lambda>answer.
                      bindE (py_print ([LF] @ ''--- Model Answer ---'')) (\<lambda>_.
                      py_print answer))
                  | Text _ \<Rightarrow> ret ()) (\<lambda>_.
           bindE (call CursorClose (cursor_close E)) (\<lambda>_.
           call ConnClose (conn_close E)))))))
         else
           bindE (retrieve_from_db E user_query) (\<lambda>results.
           bindE (if results = [] then py_print ''No relevant data found.''
                  else
                    (let readable = join [LF] (map (str_row E) results) in
                     bindE (py_print ([LF] @ ''--- Retrieved Context ---'')) (\<lambda>_.
                     bindE (py_print readable) (\<lambda>_.
                     bindE (generate_answer E user_query results) (\<lambda>answer.
                     bindE (py_print ([LF] @ ''--- Model Answer ---'')) (\<lambda>_.
                     py_print answer)))))) (\<lambda>_.
           bindE (call CursorClose (cursor_close E)) (\<lambda>_.
           call ConnClose (conn_close E)))))
      else if query_type = ''sql_query'' then
        bindE (generate_sql E user_query) (\<lambda>stmt.
        bindE (py_print ([LF] @ ''--- Generated SQL ---'' @ [LF] @ stmt)) (\<lambda>_.
        bindE (execute_sql E stmt) (\<lambda>result.
        bindE (py_print ([LF] @ ''--- SQL Query Result ---'')) (\<lambda>_.
        bindE (py_print (str_sql_value E result)) (\<lambda>_.
        bindE (case result of
                 Rows rows \<Rightarrow>
                   bindE (explain_sql_result E rows user_query) (\<lambda>answer.
                   bindE (py_print ([LF] @ ''--- Model Answer ---'')) (\<lambda>_.
                   py_print answer))
               | Text _ \<Rightarrow> ret ()) (\<lambda>_.
        bindE (call CursorClose (cursor_close E)) (\<lambda>_.
        call ConnClose (conn_close E))))))))
      else
        bindE (call CursorClose (cursor_close E)) (\<lambda>_.
        call ConnClose (conn_close E)))))"

section \<open>Notions used in the statements\<close>

text \<open>
  The events of the token loop over a list of tokens: one four-column wildcard search
  and one \<open>fetchall\<close> for each token, in order.
\<close>

definition wildcard_search :: "string \<Rightarrow> event" where
  "wildcard_search t =
     Execute like_query [''%'' @ t @ ''%'', ''%'' @ t @ ''%'', ''%'' @ t @ ''%'', ''%'' @ t @ ''%'']"

definition token_events :: "string list \<Rightarrow> event list" where
  "token_events tokens = concat (map (\<lambda>t. [wildcard_search t, Fetchall]) tokens)"

text \<open>The invariant of the dict \<open>found\<close>: its keys are distinct and are the keys of its rows.\<close>

definition keyed :: "('v key \<times> 'v list) list \<Rightarrow> bool" where
  "keyed d = (distinct (map fst d) \<and> list_all (\<lambda>(k, row). k = row_key row) d)"

text \<open>
  \<open>emits P m\<close>: the computation \<open>m\<close> only appends to the trace, and every event it
  appends satisfies \<open>P\<close>, however it ends. \<open>keeps g m\<close>: \<open>m\<close> leaves the component \<open>g\<close>
  of the state as it was.
\<close>

definition emits ::
  "(event \<Rightarrow> bool) \<Rightarrow> (('w, 'z) state_scheme \<Rightarrow> 'r \<times> ('w, 'z) state_scheme) \<Rightarrow> bool" where
  "emits P m = (\<forall>s. \<exists>evs. trace (snd (m s)) = trace s @ evs \<and> list_all P evs)"

definition keeps :: "('s \<Rightarrow> 'x) \<Rightarrow> ('s \<Rightarrow> 'r \<times> 's) \<Rightarrow> bool" where
  "keeps g m = (\<forall>s. g (snd (m s)) = g s)"

text \<open>
  \<open>releases m\<close>: whenever \<open>m\<close> returns without an exception, the last two events it
  appended are the closing of the cursor and of the connection, and it appended no other
  closing event.
\<close>

definition releases ::
  "(('w, 'z) state_scheme \<Rightarrow> (exn + 'a) \<times> ('w, 'z) state_scheme) \<Rightarrow> bool" where
  "releases m =
     (\<forall>s a s'. m s = (Inr a, s') \<longrightarrow>
        (\<exists>evs. trace s' = trace s @ evs @ [CursorClose, ConnClose] \<and>
               CursorClose \<notin> set evs \<and> ConnClose \<notin> set evs))"

text \<open>
  The retrieval engine without its name shortcut: steps 2 and 3 of \<open>retrieve_from_db\<close>,
  the full-string search and the token fallback.
\<close>

definition retrieve_without_shortcut ::
  "('w, 'v) env \<Rightarrow> string \<Rightarrow> ('w, 'z) state_scheme \<Rightarrow>
   (exn + 'v list list) \<times> ('w, 'z) state_scheme" where
  "retrieve_without_shortcut E query =
     (let wildcard = ''%'' @ query @ ''%'' in
      bindE (execute E like_query [wildcard, wildcard, wildcard, wildcard]) (\<lambda>_.
      bindE (fetchall E) (\<lambda>results.
      if results = [] then
        (let tokens = filter (\<lambda>t. lower t \<notin> set STOPWORDS \<and> str_len t > 2)
                        (findall_word (unicode_alnum E) query) in
         bindE (token_loop E tokens []) (\<lambda>found.
         if found \<noteq> [] then ret (dict_values found) else ret results))
      else ret results)))"

text \<open>
  The two pipelines with the retrieval engine as a parameter: the bodies of
  \<open>run_query_try\<close> and \<open>rag_pipeline\<close>, with \<open>retrieve\<close> where they call
  \<open>retrieve_from_db\<close>. They serve to compare the pipelines under two engines.
\<close>

definition run_query_try_with ::
  "(string \<Rightarrow> ('w, 'v) run_state \<Rightarrow> (exn + 'v list list) \<times> ('w, 'v) run_state) \<Rightarrow>
   ('w, 'v) env \<Rightarrow> string \<Rightarrow> ('w, 'v) run_state \<Rightarrow> (exn + unit) \<times> ('w, 'v) run_state" where
  "run_query_try_with retrieve E user_query =
     bindE (call Connect (get_connection E)) (\<lambda>_.
     bindE (call Cursor (conn_cursor E)) (\<lambda>_.
     (let query_type = detect_query_type user_query in
      if query_type = ''retrieval'' then
        (let intent = parse_intent user_query in
         if action intent = Some ''sql'' then
           bindE (assign (\<lambda>out. out\<lparr>generated_sql := sql intent\<rparr>)) (\<lambda>_.
           bindE (case sql intent of
                    Some stmt \<Rightarrow> execute_sql E stmt
                  | None \<Rightarrow> (\<lambda>s. (Inl ''AttributeError'', s))) (\<lambda>result.
           bindE (assign (\<lambda>out. out\<lparr>sql_result := Some result\<rparr>)) (\<lambda>_.
           bindE (case result of
                    Rows rows \<Rightarrow>
                      bindE (explain_sql_result E rows user_query) (\<lambda>answer.
                      assign (\<lambda>out. out\<lparr>model_answer := Some answer\<rparr>))
                  | Text _ \<Rightarrow> ret ()) (\<lambda>_.
           bindE (call CursorClose (cursor_close E)) (\<lambda>_.
           call ConnClose (conn_close E))))))
         else
           bindE (retrieve user_query) (\<lambda>results.
           bindE (if results = [] then
                    assign (\<lambda>out. out\<lparr>model_answer := Some ''No relevant data found.''\<rparr>)
                  else
                    bindE (assign (\<lambda>out. out\<lparr>retrieved_context := Some results\<rparr>)) (\<lambda>_.
                    bindE (generate_answer E user_query results) (\<lambda>answer.
                    assign (\<lambda>out. out\<lparr>model_answer := Some answer\<rparr>)))) (\<lambda>_.
           bindE (call CursorClose (cursor_close E)) (\<lambda>_.
           call ConnClose (conn_close E)))))
      else if query_type = ''sql_query'' then
        bindE (generate_sql E user_query) (\<lambda>stmt.
        bindE (assign (\<lambda>out. out\<lparr>generated_sql := Some stmt\<rparr>)) (\<lambda>_.
        bindE (execute_sql E stmt) (\<lambda>result.
        bindE (assign (\<lambda>out. out\<lparr>sql_result := Some result\<rparr>)) (\<lambda>_.
        bindE (case result of
                 Rows rows \<Rightarrow>
                   bindE (explain_sql_result E rows user_query) (\<lambda>answer.
                   assign (\<lambda>out. out\<lparr>model_answer := Some answer\<rparr>))
               | Text _ \<Rightarrow> ret ()) (\<lambda>_.
        bindE (call CursorClose (cursor_close E)) (\<lambda>_.
        call ConnClose (conn_close E)))))))
      else
        bindE (call CursorClose (cursor_close E)) (\<lambda>_.
        call ConnClose (conn_close E)))))"

definition rag_pipeline_with ::
  "(string \<Rightarrow> ('w, 'z) state_scheme \<Rightarrow> (exn + 'v list list) \<times> ('w, 'z) state_scheme) \<Rightarrow>
   ('w, 'v) env \<Rightarrow> string \<Rightarrow> ('w, 'z) state_scheme \<Rightarrow> (exn + unit) \<times> ('w, 'z) state_scheme" where
  "rag_pipeline_with retrieve E user_query =
     bindE (call Connect (get_connection E)) (\<lambda>_.
     bindE (call Cursor (conn_cursor E)) (\<lambda>_.
     (let query_type = detect_query_type user_query in
      if query_type = ''retrieval'' then
        (let intent = parse_intent user_query in
         if action intent = Some ''sql'' then
           bindE (py_print ([LF] @ ''--- Generated SQL ---'' @ [LF] @
                    (case sql intent of Some stmt \<Rightarrow> stmt | None \<Rightarrow> ''None''))) (\<lambda>_.
           bindE (case sql intent of
                    Some stmt \<Rightarrow> execute_sql E stmt
                  | None \<Rightarrow> (\<lambda>s. (Inl ''AttributeError'', s))) (\<lambda>result.
           bindE (py_print ([LF] @ ''--- SQL Query Result ---'')) (\<lambda>_.
           bindE (py_print (str_sql_value E result)) (\<lambda>_.
           bindE (case result of
                    Rows rows \<Rightarrow>
                      bindE (explain_sql_result E rows user_query) (\<lambda>answer.
                      bindE (py_print ([LF] @ ''--- Model Answer ---'')) (\<lambda>_.
                      py_print answer))
                  | Text _ \<Rightarrow> ret ()) (\<lambda>_.
           bindE (call CursorClose (cursor_close E)) (\<lambda>_.
           call ConnClose (conn_close E)))))))
         else
           bindE (retrieve user_query) (\<lambda>results.
           bindE (if results = [] then py_print ''No relevant data found.''
                  else
                    (let readable = join [LF] (map (str_row E) results) in
                     bindE (py_print ([LF] @ ''--- Retrieved Context ---'')) (\<lambda>_.
                     bindE (py_print readable) (\<lambda>_.
                     bindE (generate_answer E user_query results) (\<lambda>answer.
                     bindE (py_print ([LF] @ ''--- Model Answer ---'')) (\<lambda>_.
                     py_print answer)))))) (\<lambda>_.
           bindE (call CursorClose (cursor_close E)) (\<lambda>_.
           call ConnClose (conn_close E)))))
      else if query_type = ''sql_query'' then
        bindE (generate_sql E user_query) (\<lambda>stmt.
        bindE (py_print ([LF] @ ''--- Generated SQL ---'' @ [LF] @ stmt)) (\<lambda>_.
        bindE (execute_sql E stmt) (\<lambda>result.
        bindE (py_print ([LF] @ ''--- SQL Query Result ---'')) (\<lambda>_.
        bindE (py_print (str_sql_value E result)) (\<lambda>_.
        bindE (case result of
                 Rows rows \<Rightarrow>
                   bindE (explain_sql_result E rows user_query) (\<lambda>answer.
                   bindE (py_print ([LF] @ ''--- Model Answer ---'')) (\<lambda>_.
                   py_print answer))
               | Text _ \<Rightarrow> ret ()) (\<lambda>_.
        bindE (call CursorClose (cursor_close E)) (\<lambda>_.
        call ConnClose (conn_close E))))))))
      else
        bindE (call CursorClose (cursor_close E)) (\<lambda>_.
        call ConnClose (conn_close E)))))"

section \<open>A sample world\<close>

text \<open>
  A small world to run the definitions in: the world state counts the statements
  executed so far, column values are natural numbers. The driver rejects a statement
  that starts with \<open>SELECT nope\<close>; the first statement finds no row, every later one
  finds the rows \<open>(1, 7)\<close> and \<open>(2, 8)\<close>. The model service is down. Of the characters
  outside ASCII the world knows the letter U+00E9 (e with acute accent, bytes C3 A9).
\<close>

definition ok :: "'w \<Rightarrow> (exn + unit) \<times> 'w" where
  "ok w = (Inr (), w)"

definition sample_env :: "(nat, nat) env" where
  "sample_env =
     \<lparr>get_connection = ok, conn_cursor = ok,
      cursor_execute = (\<lambda>stmt params w.
        (if startswith stmt ''SELECT nope'' then Inl ''no such column'' else Inr (), Suc w)),
      cursor_fetchall = (\<lambda>w. (Inr (if w = 1 then [] else [[1, 7], [2, 8]]), w)),
      cursor_close = ok, conn_close = ok,
      generate_content = (\<lambda>prompt w. (Inl ''service unavailable'', w)),
      str_val = (\<lambda>v. str_nat v),
      str_row = (\<lambda>row. ''('' @ join '', '' (map str_nat row) @ '')''),
      unicode_alnum = (\<lambda>cp. cp = [CHR 0xC3, CHR 0xA9])\<rparr>"

definition start :: "nat state" where
  "start = \<lparr>world = 0, trace = []\<rparr>"

section \<open>Facts about the string operations\<close>

lemma startswith_iff: "startswith s p \<longleftrightarrow> (\<exists>t. s = p @ t)"
  unfolding startswith_def by (metis append_eq_conv_conj append_take_drop_id)

text \<open>\<open>str_in\<close> is the substring relation.\<close>

lemma str_in_iff: "str_in k q \<longleftrightarrow> (\<exists>p s. q = p @ k @ s)"
proof (induction q)
  case Nil
  then show ?case by auto
next
  case (Cons c cs)
  show ?case
  proof
    assume "str_in k (c # cs)"
    then consider "startswith (c # cs) k" | "str_in k cs" by auto
    then show "\<exists>p s. c # cs = p @ k @ s"
    proof cases
      case 1
      then obtain s where "c # cs = k @ s" using startswith_iff by blast
      then have "c # cs = [] @ k @ s" by simp
      then show ?thesis by blast
    next
      case 2
      then obtain p s where "cs = p @ k @ s" using Cons.IH by blast
      then have "c # cs = (c # p) @ k @ s" by simp
      then show ?thesis by blast
    qed
  next
    assume "\<exists>p s. c # cs = p @ k @ s"
    then obtain p s where e: "c # cs = p @ k @ s" by blast
    show "str_in k (c # cs)"
    proof (cases p)
      case Nil
      then have "startswith (c # cs) k" using e startswith_iff by auto
      then show ?thesis by simp
    next
      case (Cons d ds)
      then have "cs = ds @ k @ s" using e by simp
      then show ?thesis using Cons.IH by auto
    qed
  qed
qed

lemma str_in_trans: "str_in a b \<Longrightarrow> str_in b c \<Longrightarrow> str_in a c"
proof -
  assume "str_in a b" "str_in b c"
  then obtain p s p' s' where "b = p @ a @ s" "c = p' @ b @ s'"
    unfolding str_in_iff by blast
  then have "c = (p' @ p) @ a @ (s @ s')" by simp
  then show ?thesis unfolding str_in_iff by blast
qed

lemma not_str_in_longer: "str_in a b \<Longrightarrow> \<not> str_in a c \<Longrightarrow> \<not> str_in b c"
  using str_in_trans by blast

text \<open>Facts about \<open>strip\<close>.\<close>

lemma strip_codes_clean:
  "find (\<lambda>w. w \<noteq> [] \<and> startswith s w) codes = None \<Longrightarrow> strip_codes codes s = s"
  by (subst strip_codes.simps) simp

lemma strip_codes_fixed:
  "find (\<lambda>w. w \<noteq> [] \<and> startswith (strip_codes codes s) w) codes = None"
proof (induction codes s rule: strip_codes.induct)
  case (1 codes s)
  show ?case
  proof (cases "find (\<lambda>w. w \<noteq> [] \<and> startswith s w) codes")
    case None
    then show ?thesis by (simp add: strip_codes_clean)
  next
    case (Some w)
    then have "strip_codes codes s = strip_codes codes (drop (length w) s)"
      by (subst strip_codes.simps) simp
    then show ?thesis using "1.IH"[OF Some] by simp
  qed
qed

lemma strip_codes_suffix: "\<exists>p. s = p @ strip_codes codes s"
proof (induction codes s rule: strip_codes.induct)
  case (1 codes s)
  show ?case
  proof (cases "find (\<lambda>w. w \<noteq> [] \<and> startswith s w) codes")
    case None
    then have "s = [] @ strip_codes codes s" by (simp add: strip_codes_clean)
    then show ?thesis by blast
  next
    case (Some w)
    then have e: "strip_codes codes s = strip_codes codes (drop (length w) s)"
      by (subst strip_codes.simps) simp
    from "1.IH"[OF Some] obtain p where
      "drop (length w) s = p @ strip_codes codes (drop (length w) s)" by blast
    then have "s = (take (length w) s @ p) @ strip_codes codes s"
      using e by (metis append.assoc append_take_drop_id)
    then show ?thesis by blast
  qed
qed

lemma space_codes_nonempty: "w \<in> set space_codes \<Longrightarrow> w \<noteq> []"
  by (auto simp: space_codes_def)

lemma space_codes_no_semicolon: "w \<in> set space_codes \<Longrightarrow> CHR '';'' \<notin> set w"
  by (auto simp: space_codes_def)

lemma lstrip_clean: "w \<in> set space_codes \<Longrightarrow> \<not> startswith (lstrip s) w"
  using strip_codes_fixed[of space_codes s] space_codes_nonempty
  unfolding lstrip_def find_None_iff by blast

lemma rstrip_clean: "w \<in> set space_codes \<Longrightarrow> \<not> startswith (rev (rstrip s)) (rev w)"
proof -
  assume w: "w \<in> set space_codes"
  then have "rev w \<in> set (map rev space_codes)" and "rev w \<noteq> []"
    using space_codes_nonempty by auto
  then show ?thesis
    using strip_codes_fixed[of "map rev space_codes" "rev s"]
    unfolding rstrip_def find_None_iff by auto
qed

lemma lstrip_suffix: "\<exists>p. s = p @ lstrip s"
  unfolding lstrip_def by (rule strip_codes_suffix)

lemma rstrip_prefix: "\<exists>q. s = rstrip s @ q"
proof -
  obtain p where "rev s = p @ strip_codes (map rev space_codes) (rev s)"
    using strip_codes_suffix by blast
  then have "s = rstrip s @ rev p"
    unfolding rstrip_def by (metis rev_append rev_rev_ident)
  then show ?thesis by blast
qed

lemma lstrip_id: "(\<And>w. w \<in> set space_codes \<Longrightarrow> \<not> startswith s w) \<Longrightarrow> lstrip s = s"
  unfolding lstrip_def by (rule strip_codes_clean) (auto simp: find_None_iff)

lemma rstrip_id:
  "(\<And>w. w \<in> set space_codes \<Longrightarrow> \<not> startswith (rev s) (rev w)) \<Longrightarrow> rstrip s = s"
proof -
  assume a: "\<And>w. w \<in> set space_codes \<Longrightarrow> \<not> startswith (rev s) (rev w)"
  have "strip_codes (map rev space_codes) (rev s) = rev s"
    by (rule strip_codes_clean) (use a in \<open>auto simp: find_None_iff\<close>)
  then show ?thesis by (simp add: rstrip_def)
qed

lemma strip_lead: "w \<in> set space_codes \<Longrightarrow> \<not> startswith (strip s) w"
proof
  assume w: "w \<in> set space_codes" and st: "startswith (strip s) w"
  obtain q where q: "lstrip s = strip s @ q"
    unfolding strip_def using rstrip_prefix by blast
  from st obtain t where "strip s = w @ t" using startswith_iff by blast
  then have "lstrip s = w @ (t @ q)" using q by simp
  then have "startswith (lstrip s) w" using startswith_iff by blast
  then show False using lstrip_clean[OF w] by blast
qed

lemma strip_trail: "w \<in> set space_codes \<Longrightarrow> \<not> startswith (rev (strip s)) (rev w)"
  unfolding strip_def by (rule rstrip_clean)

lemma strip_fixed:
  assumes "\<And>w. w \<in> set space_codes \<Longrightarrow> \<not> startswith s w"
    and "\<And>w. w \<in> set space_codes \<Longrightarrow> \<not> startswith (rev s) (rev w)"
  shows "strip s = s"
  unfolding strip_def using lstrip_id[OF assms(1)] rstrip_id[OF assms(2)] by simp

lemma strip_strip: "strip (strip s) = strip s"
  by (rule strip_fixed) (simp_all add: strip_lead strip_trail)

lemma strip_subset: "set (strip s) \<subseteq> set s"
proof -
  obtain p where p: "s = p @ lstrip s" using lstrip_suffix by blast
  obtain q where q: "lstrip s = strip s @ q"
    unfolding strip_def using rstrip_prefix by blast
  have "s = p @ strip s @ q" using p q by simp
  then have "set s = set p \<union> set (strip s) \<union> set q" by (metis set_append Un_assoc)
  then show ?thesis by blast
qed

lemma body_no_semicolon:
  "CHR '';'' \<notin> set (strip (takeWhile (\<lambda>c. c \<noteq> CHR '';'') t))"
proof
  assume "CHR '';'' \<in> set (strip (takeWhile (\<lambda>c. c \<noteq> CHR '';'') t))"
  then have "CHR '';'' \<in> set (takeWhile (\<lambda>c. c \<noteq> CHR '';'') t)"
    using strip_subset by blast
  then show False using set_takeWhileD by fastforce
qed

lemma strip_semicolon: "strip (strip t @ '';'') = strip t @ '';''"
proof (rule strip_fixed)
  fix w assume w: "w \<in> set space_codes"
  show "\<not> startswith (strip t @ '';'') w"
  proof
    assume "startswith (strip t @ '';'') w"
    then obtain r where e: "strip t @ '';'' = w @ r" using startswith_iff by blast
    then consider u where "strip t = w @ u" | u where "w = strip t @ u" "u \<noteq> []"
      by (metis append_eq_append_conv2 append_Nil2)
    then show False
    proof cases
      case 1
      then have "startswith (strip t) w" using startswith_iff by blast
      then show ?thesis using strip_lead[OF w] by blast
    next
      case 2
      then have "'';'' = u @ r" using e by simp
      then have "CHR '';'' \<in> set u" using 2(2) by (cases u) auto
      then show ?thesis using 2(1) space_codes_no_semicolon[OF w] by simp
    qed
  qed
next
  fix w assume w: "w \<in> set space_codes"
  show "\<not> startswith (rev (strip t @ '';'')) (rev w)"
  proof
    assume "startswith (rev (strip t @ '';'')) (rev w)"
    then obtain r where "CHR '';'' # rev (strip t) = rev w @ r"
      using startswith_iff by auto
    moreover have "rev w \<noteq> []" using space_codes_nonempty[OF w] by simp
    ultimately have "hd (rev w) = CHR '';''" by (cases "rev w") auto
    then have "CHR '';'' \<in> set w"
      using \<open>rev w \<noteq> []\<close> by (metis hd_in_set set_rev)
    then show False using space_codes_no_semicolon[OF w] by blast
  qed
qed

section \<open>The classifier\<close>

lemma retrieval_no_keyword:
  assumes "detect_query_type query = ''retrieval''"
  shows "\<not> str_in ''how many'' (lower query)" "\<not> str_in ''count'' (lower query)"
    "\<not> str_in ''average'' (lower query)" "\<not> str_in ''sum'' (lower query)"
    "\<not> str_in ''total'' (lower query)" "\<not> str_in ''rows'' (lower query)"
    "\<not> str_in ''maximum'' (lower query)" "\<not> str_in ''minimum'' (lower query)"
    "\<not> str_in ''number of'' (lower query)" "\<not> str_in ''total number'' (lower query)"
    "\<not> str_in ''age'' (lower query)" "\<not> str_in ''salary'' (lower query)"
  using assms by (simp_all add: detect_query_type_def analytical_keywords_def split: if_splits)

text \<open>
  C9. The classifier returns \<open>sql_query\<close> (the spec's \<open>analytical\<close>) when a keyword of
  the fixed set is a substring of the lower-cased query, \<open>retrieval\<close> for every other
  query, and one of the two for every input.
\<close>

theorem detect_query_type_keywords:
  "((\<exists>k \<in> set [''how many'', ''count'', ''average'', ''sum'', ''total'', ''rows'',
                 ''maximum'', ''minimum'', ''number of'', ''total number'', ''age'',
                 ''salary'']. \<exists>p s. lower query = p @ k @ s) \<longrightarrow>
      detect_query_type query = ''sql_query'' \<and> detect_query_type query \<noteq> ''retrieval'') \<and>
   (\<not> (\<exists>k \<in> set [''how many'', ''count'', ''average'', ''sum'', ''total'', ''rows'',
                    ''maximum'', ''minimum'', ''number of'', ''total number'', ''age'',
                    ''salary'']. \<exists>p s. lower query = p @ k @ s) \<longrightarrow>
      detect_query_type query = ''retrieval'') \<and>
   (detect_query_type query = ''sql_query'' \<or> detect_query_type query = ''retrieval'')"
  unfolding str_in_iff[symmetric]
  by (simp add: detect_query_type_def analytical_keywords_def)

theorem detect_query_type_keywords_witness:
  "detect_query_type ''How many people'' = ''sql_query'' \<and>
   detect_query_type ''who is Asmi?'' = ''retrieval''"
proof -
  have "lower ''How many people'' = [] @ ''how many'' @ '' people''"
    by (simp add: lower_def lower_char_def)
  then have a: "\<exists>k \<in> set [''how many'', ''count'', ''average'', ''sum'', ''total'', ''rows'',
                 ''maximum'', ''minimum'', ''number of'', ''total number'', ''age'',
                 ''salary'']. \<exists>p s. lower ''How many people'' = p @ k @ s"
    by (metis list.set_intros(1))
  have b: "\<not> (\<exists>k \<in> set [''how many'', ''count'', ''average'', ''sum'', ''total'', ''rows'',
                 ''maximum'', ''minimum'', ''number of'', ''total number'', ''age'',
                 ''salary'']. \<exists>p s. lower ''who is Asmi?'' = p @ k @ s)"
    unfolding str_in_iff[symmetric]
    by (simp add: lower_def lower_char_def startswith_def)
  show ?thesis
    using detect_query_type_keywords[of "''How many people''"]
      detect_query_type_keywords[of "''who is Asmi?''"] a b
    by blast
qed

section \<open>The resolver under the classifier\<close>

lemma retrieval_no_count:
  assumes "detect_query_type query = ''retrieval''"
  shows "\<not> (str_in ''count'' (lower query) \<or>
            any_in [''how many'', ''total number'', ''number of''] (lower query))"
  using retrieval_no_keyword[OF assms] by (simp add: any_in_def)

lemma retrieval_no_age:
  assumes "detect_query_type query = ''retrieval''" and "str_in ''age'' k"
  shows "\<not> str_in k (lower query)"
  using retrieval_no_keyword(11)[OF assms(1)] assms(2) not_str_in_longer by blast

lemma retrieval_no_sum:
  assumes "detect_query_type query = ''retrieval''"
  shows "\<not> any_in [''sum of age'', ''sum of ages'', ''total age'', ''total of ages'',
                    ''sum ages''] (lower query)"
proof -
  have "str_in ''age'' ''sum of age''" "str_in ''age'' ''sum of ages''"
    "str_in ''age'' ''total age''" "str_in ''age'' ''total of ages''"
    "str_in ''age'' ''sum ages''"
    by (simp_all add: startswith_def)
  then show ?thesis using retrieval_no_age[OF assms] by (simp add: any_in_def)
qed

lemma retrieval_no_avg:
  assumes "detect_query_type query = ''retrieval''"
  shows "\<not> any_in [''average age'', ''avg age'', ''average of ages'', ''mean age'']
            (lower query)"
proof -
  have "str_in ''age'' ''average age''" "str_in ''age'' ''avg age''"
    "str_in ''age'' ''average of ages''" "str_in ''age'' ''mean age''"
    by (simp_all add: startswith_def)
  then show ?thesis using retrieval_no_age[OF assms] by (simp add: any_in_def)
qed

lemma retrieval_no_age_list:
  assumes "detect_query_type query = ''retrieval''"
  shows "\<not> any_in [''age'', ''ages'', ''list ages'', ''show ages''] (lower query)"
proof -
  have "str_in ''age'' ''age''" "str_in ''age'' ''ages''"
    "str_in ''age'' ''list ages''" "str_in ''age'' ''show ages''"
    by (simp_all add: startswith_def)
  then show ?thesis using retrieval_no_age[OF assms] by (simp add: any_in_def)
qed

lemma retrieval_max_oldest:
  assumes "detect_query_type query = ''retrieval''"
  shows "any_in [''max age'', ''maximum age'', ''oldest''] (lower query) \<longleftrightarrow>
         str_in ''oldest'' (lower query)"
proof -
  have "str_in ''age'' ''max age''" "str_in ''age'' ''maximum age''"
    by (simp_all add: startswith_def)
  then show ?thesis using retrieval_no_age[OF assms] by (simp add: any_in_def)
qed

lemma retrieval_min_youngest:
  assumes "detect_query_type query = ''retrieval''"
  shows "any_in [''min age'', ''minimum age'', ''youngest''] (lower query) \<longleftrightarrow>
         str_in ''youngest'' (lower query)"
proof -
  have "str_in ''age'' ''min age''" "str_in ''age'' ''minimum age''"
    by (simp_all add: startswith_def)
  then show ?thesis using retrieval_no_age[OF assms] by (simp add: any_in_def)
qed

text \<open>
  C3, as stated, fails: \<open>oldest\<close> and \<open>youngest\<close> trigger the maximum and minimum
  templates of the resolver and are not keywords of the classifier. The query
  \<open>Who is the oldest?\<close> is classified \<open>retrieval\<close> and resolved to the \<open>MAX\<close> template.
\<close>

theorem aggregate_branch_reached:
  "detect_query_type ''Who is the oldest?'' = ''retrieval'' \<and>
   parse_intent ''Who is the oldest?'' =
     canned ''SELECT MAX(age) FROM people_info;'' ''maximum age''"
  by (simp add: detect_query_type_def analytical_keywords_def parse_intent_def Let_def
      any_in_def lower_def lower_char_def startswith_def)

text \<open>
  C3, amended. For a query classified \<open>retrieval\<close> the resolver never returns the
  count, sum or average template; it returns the maximum template only for a query
  that contains \<open>oldest\<close> and the minimum template only for one that contains
  \<open>youngest\<close>.
\<close>

theorem aggregate_templates_under_retrieval:
  assumes "detect_query_type query = ''retrieval''"
  shows "sql (parse_intent query) \<noteq> Some ''SELECT COUNT(*) FROM people_info;'' \<and>
         sql (parse_intent query) \<noteq> Some ''SELECT SUM(age) FROM people_info;'' \<and>
         sql (parse_intent query) \<noteq> Some ''SELECT AVG(age) FROM people_info;'' \<and>
         (sql (parse_intent query) = Some ''SELECT MAX(age) FROM people_info;'' \<longrightarrow>
            str_in ''oldest'' (lower query)) \<and>
         (sql (parse_intent query) = Some ''SELECT MIN(age) FROM people_info;'' \<longrightarrow>
            str_in ''youngest'' (lower query))"
  using retrieval_no_count[OF assms] retrieval_no_sum[OF assms] retrieval_no_avg[OF assms]
    retrieval_no_age_list[OF assms] retrieval_max_oldest[OF assms]
    retrieval_min_youngest[OF assms]
  by (simp add: parse_intent_def Let_def canned_def no_intent_def)

theorem aggregate_templates_under_retrieval_witness:
  "detect_query_type ''The youngest one'' = ''retrieval'' \<and>
   sql (parse_intent ''The youngest one'') = Some ''SELECT MIN(age) FROM people_info;'' \<and>
   sql (parse_intent ''The youngest one'') \<noteq> Some ''SELECT COUNT(*) FROM people_info;'' \<and>
   str_in ''youngest'' (lower ''The youngest one'')"
proof -
  have a: "detect_query_type ''The youngest one'' = ''retrieval''"
    by (simp add: detect_query_type_def analytical_keywords_def lower_def lower_char_def
        startswith_def)
  have b: "sql (parse_intent ''The youngest one'') = Some ''SELECT MIN(age) FROM people_info;''"
    by (simp add: parse_intent_def Let_def canned_def any_in_def lower_def lower_char_def
        startswith_def)
  show ?thesis
    using aggregate_templates_under_retrieval[OF a] a b by simp
qed

text \<open>
  C5. A query whose lower-cased form contains \<open>age\<close> is classified \<open>sql_query\<close> (the
  spec's \<open>analytical\<close>), and the pipeline on it is the analytical route: connection,
  cursor, generated SQL, guarded execution, explanation, release; the resolver is not
  consulted. Conversely, whenever the resolver is consulted (classification
  \<open>retrieval\<close>) the query does not contain \<open>age\<close> and the resolver does not answer with
  the age-listing statement.
\<close>

theorem age_query_routed_analytical:
  "((\<exists>p s. lower query = p @ ''age'' @ s) \<longrightarrow>
      detect_query_type query = ''sql_query'' \<and>
      detect_query_type query \<noteq> ''retrieval'' \<and>
      run_query_try E query =
        bindE (call Connect (get_connection E)) (\<lambda>_.
        bindE (call Cursor (conn_cursor E)) (\<lambda>_.
        bindE (generate_sql E query) (\<lambda>stmt.
        bindE (assign (\<lambda>out. out\<lparr>generated_sql := Some stmt\<rparr>)) (\<lambda>_.
        bindE (execute_sql E stmt) (\<lambda>result.
        bindE (assign (\<lambda>out. out\<lparr>sql_result := Some result\<rparr>)) (\<lambda>_.
        bindE (case result of
                 Rows rows \<Rightarrow>
                   bindE (explain_sql_result E rows query) (\<lambda>answer.
                   assign (\<lambda>out. out\<lparr>model_answer := Some answer\<rparr>))
               | Text _ \<Rightarrow> ret ()) (\<lambda>_.
        bindE (call CursorClose (cursor_close E)) (\<lambda>_.
        call ConnClose (conn_close E)))))))))) \<and>
   (detect_query_type query = ''retrieval'' \<longrightarrow>
      \<not> (\<exists>p s. lower query = p @ ''age'' @ s) \<and>
      sql (parse_intent query) \<noteq> Some ''SELECT id, name, age FROM people_info;'')"
proof -
  have a: "detect_query_type query = ''sql_query''" if "str_in ''age'' (lower query)"
    using that by (simp add: detect_query_type_def analytical_keywords_def)
  have b: "sql (parse_intent query) \<noteq> Some ''SELECT id, name, age FROM people_info;''"
    if r: "detect_query_type query = ''retrieval''"
    using retrieval_no_age_list[OF r]
    by (simp add: parse_intent_def Let_def canned_def no_intent_def)
  show ?thesis
    unfolding str_in_iff[symmetric]
    using a b retrieval_no_keyword(11)[of query]
    by (simp add: run_query_try_def Let_def)
qed

theorem age_query_routed_analytical_witness:
  "detect_query_type ''Show ages'' = ''sql_query'' \<and>
   sql (parse_intent ''Show ages'') = Some ''SELECT id, name, age FROM people_info;'' \<and>
   detect_query_type ''who is Asmi?'' = ''retrieval'' \<and>
   sql (parse_intent ''who is Asmi?'') \<noteq> Some ''SELECT id, name, age FROM people_info;''"
proof -
  have "lower ''Show ages'' = ''show '' @ ''age'' @ ''s''"
    by (simp add: lower_def lower_char_def)
  then have a: "\<exists>p s. lower ''Show ages'' = p @ ''age'' @ s" by blast
  have b: "sql (parse_intent ''Show ages'') = Some ''SELECT id, name, age FROM people_info;''"
    by (simp add: parse_intent_def Let_def canned_def any_in_def lower_def lower_char_def
        startswith_def)
  have c: "detect_query_type ''who is Asmi?'' = ''retrieval''"
    by (simp add: detect_query_type_def analytical_keywords_def lower_def lower_char_def
        startswith_def)
  show ?thesis
    using age_query_routed_analytical[of "''Show ages''" sample_env]
      age_query_routed_analytical[of "''who is Asmi?''" sample_env] a b c
    by blast
qed

section \<open>The sanitizer\<close>

text \<open>
  C8. The sanitizer's output is the trimmed text before the first semicolon of the
  unfenced response, followed by one semicolon: it ends with a semicolon and holds no
  other one.
\<close>

theorem sanitize_one_statement:
  "sanitize x = strip (takeWhile (\<lambda>c. c \<noteq> CHR '';'') (unfenced x)) @ '';'' \<and>
   last (sanitize x) = CHR '';'' \<and>
   CHR '';'' \<notin> set (butlast (sanitize x)) \<and>
   count_list (sanitize x) (CHR '';'') = 1"
  using body_no_semicolon[of "unfenced x"] by (simp add: sanitize_def)

theorem sanitize_one_statement_witness:
  "sanitize (fence @ ''sql'' @ [LF] @ ''SELECT 1; DROP TABLE x;'' @ [LF] @ fence) = ''SELECT 1;'' \<and>
   count_list (sanitize (fence @ ''sql'' @ [LF] @ ''SELECT 1; DROP TABLE x;'' @ [LF] @ fence))
     (CHR '';'') = 1"
proof -
  have "sanitize (fence @ ''sql'' @ [LF] @ ''SELECT 1; DROP TABLE x;'' @ [LF] @ fence) =
        ''SELECT 1;''"
    by code_simp
  then show ?thesis
    using sanitize_one_statement[of "fence @ ''sql'' @ [LF] @ ''SELECT 1; DROP TABLE x;'' @ [LF] @ fence"]
    by simp
qed

text \<open>
  C4, as stated, fails: the sanitizer removes one fence and one \<open>sql\<close> tag line, so an
  output that again starts with one is changed by a second pass. On the three lines
  \<open>sql\<close>, \<open>sql\<close>, \<open>SELECT 1\<close> the first pass leaves \<open>sql\<close>, \<open>SELECT 1;\<close> and the second
  \<open>SELECT 1;\<close>.
\<close>

theorem sanitize_not_idempotent:
  "sanitize (''sql'' @ [LF] @ ''sql'' @ [LF] @ ''SELECT 1'') = ''sql'' @ [LF] @ ''SELECT 1;'' \<and>
   sanitize (sanitize (''sql'' @ [LF] @ ''sql'' @ [LF] @ ''SELECT 1'')) = ''SELECT 1;'' \<and>
   sanitize (sanitize (''sql'' @ [LF] @ ''sql'' @ [LF] @ ''SELECT 1'')) \<noteq>
     sanitize (''sql'' @ [LF] @ ''sql'' @ [LF] @ ''SELECT 1'')"
  by code_simp

text \<open>
  C4, amended. A second pass changes nothing when the output of the first neither
  starts with a fence nor, lower-cased, with the line \<open>sql\<close>.
\<close>

theorem sanitize_idempotent_unless_marked:
  assumes "\<not> startswith (sanitize x) fence"
    and "\<not> startswith (lower (sanitize x)) (''sql'' @ [LF])"
  shows "sanitize (sanitize x) = sanitize x"
proof -
  define b where "b = strip (takeWhile (\<lambda>c. c \<noteq> CHR '';'') (unfenced x))"
  have y: "sanitize x = b @ '';''" by (simp add: sanitize_def b_def)
  have nb: "CHR '';'' \<notin> set b" unfolding b_def by (rule body_no_semicolon)
  have s1: "strip (b @ '';'') = b @ '';''" unfolding b_def by (rule strip_semicolon)
  have u: "unfenced (b @ '';'') = b @ '';''"
    using assms unfolding y by (simp add: unfenced_def s1 Let_def)
  have "\<And>c. c \<in> set b \<Longrightarrow> c \<noteq> CHR '';''" using nb by auto
  then have "takeWhile (\<lambda>c. c \<noteq> CHR '';'') (b @ '';'') = b"
    by (simp add: takeWhile_append2)
  moreover have "strip b = b" unfolding b_def by (rule strip_strip)
  ultimately show ?thesis unfolding y by (simp add: sanitize_def u)
qed

theorem sanitize_idempotent_unless_marked_witness:
  "sanitize (fence @ ''sql'' @ [LF] @ ''SELECT 1; DROP'' @ [LF] @ fence) = ''SELECT 1;'' \<and>
   sanitize (sanitize (fence @ ''sql'' @ [LF] @ ''SELECT 1; DROP'' @ [LF] @ fence)) =
     ''SELECT 1;''"
proof -
  have e: "sanitize (fence @ ''sql'' @ [LF] @ ''SELECT 1; DROP'' @ [LF] @ fence) = ''SELECT 1;''"
    by code_simp
  have "\<not> startswith ''SELECT 1;'' fence"
    by (simp add: startswith_def fence_def)
  moreover have "\<not> startswith (lower ''SELECT 1;'') (''sql'' @ [LF])"
    by (simp add: startswith_def lower_def lower_char_def LF_def)
  ultimately show ?thesis
    using sanitize_idempotent_unless_marked
      [of "fence @ ''sql'' @ [LF] @ ''SELECT 1; DROP'' @ [LF] @ fence"]
    unfolding e by simp
qed

section \<open>Guarded execution\<close>

text \<open>
  C7. A statement whose lower-cased form does not start with \<open>select\<close> gets the
  advisory text, and the state (world and trace) is unchanged: nothing was executed. For
  a statement that does start with \<open>select\<close>, an exception of \<open>cursor.execute\<close> or of
  \<open>cursor.fetchall\<close> becomes the text \<open>SQL Error:\<close> with its message, and rows are
  returned as they are; \<open>execute_sql\<close> never raises.
\<close>

theorem execute_sql_guarded:
  "(\<not> startswith (lower stmt) ''select'' \<longrightarrow>
      execute_sql E stmt s = (Inr (Text '' Only SELECT queries are allowed for safety.''), s)) \<and>
   (startswith (lower stmt) ''select'' \<longrightarrow>
      (\<forall>e w. cursor_execute E stmt [] (world s) = (Inl e, w) \<longrightarrow>
         execute_sql E stmt s =
           (Inr (Text ([CHR 0xE2, CHR 0x9A, CHR 0xA0, CHR 0xEF, CHR 0xB8, CHR 0x8F] @
                       ''SQL Error: '' @ e)),
            s\<lparr>world := w, trace := trace s @ [Execute stmt []]\<rparr>)) \<and>
      (\<forall>w e w'. cursor_execute E stmt [] (world s) = (Inr (), w) \<longrightarrow>
         cursor_fetchall E w = (Inl e, w') \<longrightarrow>
         execute_sql E stmt s =
           (Inr (Text ([CHR 0xE2, CHR 0x9A, CHR 0xA0, CHR 0xEF, CHR 0xB8, CHR 0x8F] @
                       ''SQL Error: '' @ e)),
            s\<lparr>world := w', trace := trace s @ [Execute stmt [], Fetchall]\<rparr>)) \<and>
      (\<forall>w rows w'. cursor_execute E stmt [] (world s) = (Inr (), w) \<longrightarrow>
         cursor_fetchall E w = (Inr rows, w') \<longrightarrow>
         execute_sql E stmt s =
           (Inr (Rows rows),
            s\<lparr>world := w', trace := trace s @ [Execute stmt [], Fetchall]\<rparr>))) \<and>
   (\<exists>v s'. execute_sql E stmt s = (Inr v, s'))"
  by (auto simp: execute_sql_def bindE_def execute_def fetchall_def call_def
      split: prod.splits sum.splits)

theorem execute_sql_guarded_witness:
  "execute_sql sample_env ''DROP TABLE x'' start =
     (Inr (Text '' Only SELECT queries are allowed for safety.''), start) \<and>
   execute_sql sample_env ''SELECT nope'' start =
     (Inr (Text ([CHR 0xE2, CHR 0x9A, CHR 0xA0, CHR 0xEF, CHR 0xB8, CHR 0x8F] @
                 ''SQL Error: no such column'')),
      \<lparr>world = 1, trace = [Execute ''SELECT nope'' []]\<rparr>)"
proof -
  have a: "\<not> startswith (lower ''DROP TABLE x'') ''select''"
    by (simp add: startswith_def lower_def lower_char_def)
  have b: "startswith (lower ''SELECT nope'') ''select''"
    by (simp add: startswith_def lower_def lower_char_def)
  have c: "cursor_execute sample_env ''SELECT nope'' [] (world start) =
           (Inl ''no such column'', 1)"
    by (simp add: sample_env_def start_def startswith_def)
  show ?thesis
    using execute_sql_guarded[of "''DROP TABLE x''" sample_env start]
      execute_sql_guarded[of "''SELECT nope''" sample_env start] a b c
    by (simp add: start_def)
qed

section \<open>The dict of the token loop\<close>

lemma dict_set_keys: "set (map fst (dict_set k v d)) = insert k (set (map fst d))"
proof (induction d)
  case Nil
  then show ?case by simp
next
  case (Cons a d)
  obtain k' v' where a: "a = (k', v')" by (cases a)
  show ?case
  proof (cases "k' = k")
    case True
    then show ?thesis using a by simp
  next
    case False
    then show ?thesis using a Cons.IH by auto
  qed
qed

lemma dict_set_distinct: "distinct (map fst d) \<Longrightarrow> distinct (map fst (dict_set k v d))"
proof (induction d)
  case Nil
  then show ?case by simp
next
  case (Cons a d)
  obtain k' v' where a: "a = (k', v')" by (cases a)
  show ?case
  proof (cases "k' = k")
    case True
    then show ?thesis using Cons.prems a by simp
  next
    case False
    have "k' \<notin> set (map fst (dict_set k v d))"
      using Cons.prems a False unfolding dict_set_keys by auto
    then show ?thesis using Cons a False by simp
  qed
qed

lemma dict_set_row_keys:
  "list_all (\<lambda>(k, row). k = f row) d \<Longrightarrow>
   list_all (\<lambda>(k, row). k = f row) (dict_set (f v) v d)"
  by (induction d) (simp_all split: prod.splits)

lemma row_keys_values:
  "list_all (\<lambda>(k, row). k = f row) d \<Longrightarrow> map f (map snd d) = map fst d"
  by (induction d) (simp_all split: prod.splits)

lemma keyed_dict_set: "keyed d \<Longrightarrow> keyed (dict_set (row_key row) row d)"
  unfolding keyed_def by (simp add: dict_set_distinct dict_set_row_keys)

lemma keyed_fold:
  "keyed d \<Longrightarrow> keyed (fold (\<lambda>row found. dict_set (row_key row) row found) rows d)"
  by (induction rows arbitrary: d) (simp_all add: keyed_dict_set)

lemma distinct_filter_le1:
  "distinct (map f xs) \<Longrightarrow> length (filter (\<lambda>x. f x = k) xs) \<le> 1"
proof (induction xs)
  case Nil
  then show ?case by simp
next
  case (Cons a xs)
  show ?case
  proof (cases "f a = k")
    case True
    then have "k \<notin> f ` set xs" using Cons.prems by simp
    then have "filter (\<lambda>x. f x = k) xs = []"
      by (simp add: filter_empty_conv image_iff) blast
    then show ?thesis using True by simp
  next
    case False
    then show ?thesis using Cons by simp
  qed
qed

lemma row_key_First: "row_key r = First v \<longleftrightarrow> (r \<noteq> [] \<and> hd r = v)"
  by (cases r) (simp_all add: row_key_def)

section \<open>Sequencing\<close>

lemma bindE_Inr:
  "bindE m f s = (Inr b, s') \<Longrightarrow> \<exists>a s1. m s = (Inr a, s1) \<and> f a s1 = (Inr b, s')"
  by (auto simp: bindE_def split: prod.splits sum.splits)

lemma call_trace: "call ev f s = (r, s') \<Longrightarrow> trace s' = trace s @ [ev]"
  by (auto simp: call_def split: prod.splits)

lemma token_loop_returns:
  "token_loop E tokens found s = (Inr found', s') \<Longrightarrow> keyed found \<Longrightarrow>
     keyed found' \<and> trace s' = trace s @ token_events tokens"
proof (induction tokens arbitrary: found s)
  case Nil
  then show ?case by (simp add: ret_def token_events_def)
next
  case (Cons t ts)
  let ?w = "''%'' @ t @ ''%''"
  have p: "bindE (execute E like_query [?w, ?w, ?w, ?w]) (\<lambda>_.
           bindE (fetchall E) (\<lambda>rows. token_loop E ts
             (fold (\<lambda>row found. dict_set (row_key row) row found) rows found))) s =
           (Inr found', s')"
    using Cons.prems(1) unfolding token_loop.simps Let_def .
  from bindE_Inr[OF p] obtain u s1 where
    s1: "execute E like_query [?w, ?w, ?w, ?w] s = (Inr u, s1)" and
    r1: "bindE (fetchall E) (\<lambda>rows. token_loop E ts
           (fold (\<lambda>row found. dict_set (row_key row) row found) rows found)) s1 = (Inr found', s')"
    by auto
  from bindE_Inr[OF r1] obtain rows s2 where
    s2: "fetchall E s1 = (Inr rows, s2)" and
    rec: "token_loop E ts (fold (\<lambda>row found. dict_set (row_key row) row found) rows found) s2 =
          (Inr found', s')"
    by auto
  have t1: "trace s1 = trace s @ [wildcard_search t]"
    using s1 unfolding execute_def wildcard_search_def by (rule call_trace)
  have t2: "trace s2 = trace s1 @ [Fetchall]"
    using s2 unfolding fetchall_def by (rule call_trace)
  have "keyed found' \<and> trace s' = trace s2 @ token_events ts"
    using Cons.IH[OF rec keyed_fold[OF Cons.prems(2)]] .
  then show ?case using t1 t2 by (simp add: token_events_def)
qed

section \<open>Token fallback\<close>

text \<open>
  The characters of a text, put together again, are the text; the tokens of
  \<open>findall_word\<close> are non-empty runs of word characters of the text.
\<close>

lemma code_points_concat: "concat (code_points s) = s"
  by (induction s rule: code_points.induct) simp_all

lemma code_points_nonempty: "cp \<in> set (code_points s) \<Longrightarrow> cp \<noteq> []"
  by (induction s rule: code_points.induct) auto

lemma runs_from_runs:
  "list_all P acc \<Longrightarrow> r \<in> set (runs_from P acc xs) \<Longrightarrow> r \<noteq> [] \<and> list_all P r"
  by (induction P acc xs rule: runs_from.induct) (auto split: if_splits)

lemma runs_from_subset:
  "r \<in> set (runs_from P acc xs) \<Longrightarrow> set r \<subseteq> set acc \<union> set xs"
  by (induction P acc xs rule: runs_from.induct) (auto split: if_splits)

lemma findall_word_tokens:
  assumes "t \<in> set (findall_word alnum s)"
  shows "t \<noteq> [] \<and> (\<exists>cps. t = concat cps \<and> cps \<noteq> [] \<and> list_all (is_word alnum) cps \<and>
                        set cps \<subseteq> set (code_points s))"
proof -
  from assms obtain r where r: "r \<in> set (runs_from (is_word alnum) [] (code_points s))"
    and t: "t = concat r"
    unfolding findall_word_def by auto
  have a: "r \<noteq> []" "list_all (is_word alnum) r"
    using runs_from_runs[OF _ r] by simp_all
  have b: "set r \<subseteq> set (code_points s)"
    using runs_from_subset[OF r] by simp
  have "hd r \<in> set (code_points s)" using a(1) b by auto
  then have "hd r \<noteq> []" by (rule code_points_nonempty)
  then have "t \<noteq> []" using a(1) t by (cases r) auto
  then show ?thesis using a b t by blast
qed

text \<open>
  C6. When the name shortcut does not apply and the full-string search returns no row,
  a call of \<open>retrieve_from_db\<close> that returns has searched, after the full-string search,
  exactly the tokens of \<open>re.findall(r"\w+", query)\<close> that are no stopword (lower-cased) and
  longer than 2 characters, one wildcard search each and in order; the rows it returns
  have distinct keys, so that no first-column value occurs in more than one of them.
\<close>

theorem token_fallback_dedup:
  assumes guard: "\<not> ((str_in ''name'' (lower query) \<or> str_in ''names'' (lower query)) \<and>
                      any_in [''all'', ''list'', ''tell'', ''show'', ''just''] (lower query))"
    and full: "execute E like_query [''%'' @ query @ ''%'', ''%'' @ query @ ''%'',
                 ''%'' @ query @ ''%'', ''%'' @ query @ ''%''] s = (Inr (), s1)"
    and zero: "fetchall E s1 = (Inr [], s2)"
    and returns: "retrieve_from_db E query s = (Inr rows, s')"
  shows "trace s' = trace s @ [wildcard_search query, Fetchall] @
           token_events (filter (\<lambda>t. lower t \<notin> set STOPWORDS \<and> str_len t > 2)
                           (findall_word (unicode_alnum E) query)) \<and>
         distinct (map row_key rows) \<and>
         (\<forall>v. length (filter (\<lambda>r. r \<noteq> [] \<and> hd r = v) rows) \<le> 1)"
proof -
  define tokens where
    "tokens = filter (\<lambda>t. lower t \<notin> set STOPWORDS \<and> str_len t > 2)
                (findall_word (unicode_alnum E) query)"
  have r: "bindE (token_loop E tokens [])
             (\<lambda>found. if found \<noteq> [] then ret (dict_values found) else ret []) s2 = (Inr rows, s')"
    using returns guard full zero
    by (simp add: retrieve_from_db_def Let_def bindE_def tokens_def)
  from bindE_Inr[OF r] obtain found s3 where tl: "token_loop E tokens [] s2 = (Inr found, s3)"
    and fin: "(if found \<noteq> [] then ret (dict_values found) else ret []) s3 = (Inr rows, s')"
    by auto
  have kf: "keyed found" and tr: "trace s3 = trace s2 @ token_events tokens"
    using token_loop_returns[OF tl] by (simp_all add: keyed_def)
  have rows: "rows = dict_values found" and s': "s' = s3"
    using fin by (auto simp: ret_def dict_values_def split: if_splits)
  have t1: "trace s1 = trace s @ [wildcard_search query]"
    using full unfolding execute_def wildcard_search_def by (rule call_trace)
  have t2: "trace s2 = trace s1 @ [Fetchall]"
    using zero unfolding fetchall_def by (rule call_trace)
  have "map row_key (map snd found) = map fst found"
    using kf unfolding keyed_def by (blast intro: row_keys_values)
  then have d: "distinct (map row_key rows)"
    using kf unfolding keyed_def rows dict_values_def by metis
  have "length (filter (\<lambda>r. r \<noteq> [] \<and> hd r = v) rows) \<le> 1" for v
    unfolding row_key_First[symmetric] using d by (rule distinct_filter_le1)
  then show ?thesis using d tr s' t1 t2 tokens_def by simp
qed

theorem token_fallback_dedup_witness:
  "filter (\<lambda>t. lower t \<notin> set STOPWORDS \<and> str_len t > 2)
     (findall_word (unicode_alnum sample_env)
        (''who is Jos'' @ [CHR 0xC3, CHR 0xA9] @ '' and Bo?'')) =
     [''Jos'' @ [CHR 0xC3, CHR 0xA9], ''and''] \<and>
   retrieve_from_db sample_env (''who is Jos'' @ [CHR 0xC3, CHR 0xA9] @ '' and Bo?'') start =
     (Inr [[1, 7], [2, 8]],
      \<lparr>world = 3,
       trace = [wildcard_search (''who is Jos'' @ [CHR 0xC3, CHR 0xA9] @ '' and Bo?''), Fetchall,
                wildcard_search (''Jos'' @ [CHR 0xC3, CHR 0xA9]), Fetchall,
                wildcard_search ''and'', Fetchall]\<rparr>) \<and>
   distinct (map row_key [[1, 7], [2, 8 :: nat]]) \<and>
   length (filter (\<lambda>r. r \<noteq> [] \<and> hd r = 1) [[1, 7], [2, 8 :: nat]]) \<le> 1"
proof -
  let ?q = "''who is Jos'' @ [CHR 0xC3, CHR 0xA9] @ '' and Bo?''"
  have g: "\<not> ((str_in ''name'' (lower ?q) \<or> str_in ''names'' (lower ?q)) \<and>
               any_in [''all'', ''list'', ''tell'', ''show'', ''just''] (lower ?q))"
    by code_simp
  have f: "execute sample_env like_query [''%'' @ ?q @ ''%'', ''%'' @ ?q @ ''%'',
             ''%'' @ ?q @ ''%'', ''%'' @ ?q @ ''%''] start =
           (Inr (), \<lparr>world = 1, trace = [wildcard_search ?q]\<rparr>)"
    by code_simp
  have z: "fetchall sample_env \<lparr>world = 1, trace = [wildcard_search ?q]\<rparr> =
           (Inr [], \<lparr>world = 1, trace = [wildcard_search ?q, Fetchall]\<rparr>)"
    by code_simp
  have r: "retrieve_from_db sample_env ?q start =
     (Inr [[1, 7], [2, 8]],
      \<lparr>world = 3,
       trace = [wildcard_search ?q, Fetchall,
                wildcard_search (''Jos'' @ [CHR 0xC3, CHR 0xA9]), Fetchall,
                wildcard_search ''and'', Fetchall]\<rparr>)"
    by code_simp
  have t: "filter (\<lambda>t. lower t \<notin> set STOPWORDS \<and> str_len t > 2)
             (findall_word (unicode_alnum sample_env) ?q) =
           [''Jos'' @ [CHR 0xC3, CHR 0xA9], ''and'']"
    by code_simp
  from token_fallback_dedup[OF g f z r]
  have "distinct (map row_key [[1, 7], [2, 8 :: nat]])"
    and "length (filter (\<lambda>r. r \<noteq> [] \<and> hd r = 1) [[1, 7], [2, 8 :: nat]]) \<le> 1"
    by blast+
  then show ?thesis using r t by blast
qed

section \<open>What a computation appends to the trace\<close>

lemma emitsD:
  "emits P m \<Longrightarrow> m s = (r, s') \<Longrightarrow> \<exists>evs. trace s' = trace s @ evs \<and> list_all P evs"
proof -
  assume e: "emits P m" and m: "m s = (r, s')"
  from e have "\<exists>evs. trace (snd (m s)) = trace s @ evs \<and> list_all P evs"
    unfolding emits_def by (rule spec)
  then show ?thesis using m by simp
qed

lemma emits_call: "P ev \<Longrightarrow> emits P (call ev f)"
  by (simp add: emits_def call_def split: prod.splits)

lemma emits_ret: "emits P (ret a)"
  by (simp add: emits_def ret_def)

lemma emits_bindE:
  assumes "emits P m" and "\<And>a. emits P (f a)"
  shows "emits P (bindE m f)"
  unfolding emits_def
proof
  fix s
  obtain r s1 where m: "m s = (r, s1)" by (cases "m s")
  from emitsD[OF assms(1) m] obtain e1 where
    e1: "trace s1 = trace s @ e1" "list_all P e1" by blast
  show "\<exists>evs. trace (snd (bindE m f s)) = trace s @ evs \<and> list_all P evs"
  proof (cases r)
    case (Inl e)
    then have "snd (bindE m f s) = s1" using m by (simp add: bindE_def)
    then show ?thesis using e1 by simp
  next
    case (Inr a)
    obtain r2 s2 where f: "f a s1 = (r2, s2)" by (cases "f a s1")
    from emitsD[OF assms(2) f] obtain e2 where
      e2: "trace s2 = trace s1 @ e2" "list_all P e2" by blast
    have "snd (bindE m f s) = s2" using m Inr f by (simp add: bindE_def)
    then have "trace (snd (bindE m f s)) = trace s @ (e1 @ e2)"
      using e1 e2 by simp
    moreover have "list_all P (e1 @ e2)" using e1 e2 by simp
    ultimately show ?thesis by blast
  qed
qed

lemma emits_token_loop:
  assumes "P Fetchall" and "\<And>ps. P (Execute like_query ps)"
  shows "emits P (token_loop E tokens found)"
proof (induction tokens arbitrary: found)
  case Nil
  show ?case by (simp add: emits_ret)
next
  case (Cons t ts)
  show ?case
    unfolding token_loop.simps Let_def execute_def fetchall_def
    by (intro emits_bindE emits_call assms Cons.IH)
qed

lemma emits_execute_sql:
  assumes "P Fetchall" and "P (Execute stmt [])"
  shows "emits P (execute_sql E stmt)"
  unfolding emits_def
proof
  fix s
  show "\<exists>evs. trace (snd (execute_sql E stmt s)) = trace s @ evs \<and> list_all P evs"
  proof (cases "startswith (lower stmt) ''select''")
    case False
    then have "snd (execute_sql E stmt s) = s" by (simp add: execute_sql_def)
    then show ?thesis by simp
  next
    case True
    have e: "emits P (bindE (execute E stmt []) (\<lambda>_. fetchall E))"
      unfolding execute_def fetchall_def by (intro emits_bindE emits_call assms)
    obtain r s1 where b: "bindE (execute E stmt []) (\<lambda>_. fetchall E) s = (r, s1)"
      by (cases "bindE (execute E stmt []) (\<lambda>_. fetchall E) s")
    have "snd (execute_sql E stmt s) = s1"
      using True b by (cases r) (simp_all add: execute_sql_def)
    then show ?thesis using emitsD[OF e b] by simp
  qed
qed

lemma emits_if:
  "(c \<Longrightarrow> emits P a) \<Longrightarrow> (\<not> c \<Longrightarrow> emits P b) \<Longrightarrow> emits P (if c then a else b)"
  by simp

section \<open>The name shortcut of the retrieval engine\<close>

lemma no_intent_no_name:
  assumes "action (parse_intent query) \<noteq> Some ''sql''"
  shows "\<not> str_in ''name'' (lower query)"
proof
  assume "str_in ''name'' (lower query)"
  then have "any_in [''name'', ''names'', ''list names'', ''just tell me the names'',
                     ''tell me the names'', ''all the people''] (lower query)"
    by (simp add: any_in_def)
  then have "parse_intent query = canned ''SELECT id, name FROM people_info;'' ''list of names''"
    by (simp add: parse_intent_def Let_def)
  then show False using assms by (simp add: canned_def)
qed

lemma no_intent_no_shortcut:
  assumes "action (parse_intent query) \<noteq> Some ''sql''"
  shows "\<not> ((str_in ''name'' (lower query) \<or> str_in ''names'' (lower query)) \<and>
            any_in [''all'', ''list'', ''tell'', ''show'', ''just''] (lower query))"
proof -
  have n: "\<not> str_in ''name'' (lower query)"
    using assms by (rule no_intent_no_name)
  have "str_in ''name'' ''names''" by (simp add: startswith_def)
  then have "\<not> str_in ''names'' (lower query)"
    using n not_str_in_longer by blast
  then show ?thesis using n by blast
qed

text \<open>
  \<open>retrieve_from_db\<close> is its name shortcut under the guard of the shortcut, and the
  engine without the shortcut otherwise; the engine without the shortcut never executes
  the statement of the shortcut.
\<close>

lemma retrieve_from_db_split:
  "retrieve_from_db E query =
     (if (str_in ''name'' (lower query) \<or> str_in ''names'' (lower query)) \<and>
         any_in [''all'', ''list'', ''tell'', ''show'', ''just''] (lower query)
      then bindE (execute E ''SELECT id, name FROM people_info;'' []) (\<lambda>_. fetchall E)
      else retrieve_without_shortcut E query)"
  unfolding retrieve_from_db_def retrieve_without_shortcut_def Let_def by simp

lemma retrieve_without_shortcut_trace:
  "\<exists>evs. trace (snd (retrieve_without_shortcut E query s)) = trace s @ evs \<and>
         Execute ''SELECT id, name FROM people_info;'' [] \<notin> set evs"
proof -
  let ?P = "\<lambda>ev. ev \<noteq> Execute ''SELECT id, name FROM people_info;'' []"
  have lq: "like_query \<noteq> ''SELECT id, name FROM people_info;''"
    by (simp add: like_query_def LF_def)
  have pf: "?P Fetchall" by simp
  have pe: "?P (Execute like_query ps)" for ps using lq by simp
  have "emits ?P (retrieve_without_shortcut E query)"
    unfolding retrieve_without_shortcut_def Let_def execute_def fetchall_def
    by (intro emits_bindE emits_call emits_if emits_ret emits_token_loop pf pe)
  then have "\<exists>evs. trace (snd (retrieve_without_shortcut E query s)) = trace s @ evs \<and>
                  list_all ?P evs"
    unfolding emits_def by (rule spec)
  then obtain evs where t: "trace (snd (retrieve_without_shortcut E query s)) = trace s @ evs"
    and l: "list_all ?P evs"
    by blast
  from l have "Execute ''SELECT id, name FROM people_info;'' [] \<notin> set evs"
    unfolding list_all_iff by blast
  then show ?thesis using t by blast
qed

text \<open>
  The pipelines with the engine as a parameter are the pipelines, and they use the
  engine only on a query that is classified \<open>retrieval\<close> and has no canned intent.
\<close>

lemma run_query_try_with_self:
  "run_query_try_with (retrieve_from_db E) E query = run_query_try E query"
  by (simp add: run_query_try_with_def run_query_try_def)

lemma rag_pipeline_with_self:
  "rag_pipeline_with (retrieve_from_db E) E query = rag_pipeline E query"
  by (simp add: rag_pipeline_with_def rag_pipeline_def)

lemma run_query_try_with_cong:
  assumes "detect_query_type query = ''retrieval'' \<Longrightarrow>
           action (parse_intent query) \<noteq> Some ''sql'' \<Longrightarrow> R query = R' query"
  shows "run_query_try_with R E query = run_query_try_with R' E query"
proof (cases "detect_query_type query = ''retrieval''")
  case False
  then show ?thesis by (simp add: run_query_try_with_def Let_def)
next
  case True
  show ?thesis
  proof (cases "action (parse_intent query) = Some ''sql''")
    case sql: True
    show ?thesis using True sql by (simp add: run_query_try_with_def Let_def)
  next
    case no: False
    show ?thesis using True no assms by (simp add: run_query_try_with_def Let_def)
  qed
qed

lemma rag_pipeline_with_cong:
  assumes "detect_query_type query = ''retrieval'' \<Longrightarrow>
           action (parse_intent query) \<noteq> Some ''sql'' \<Longrightarrow> R query = R' query"
  shows "rag_pipeline_with R E query = rag_pipeline_with R' E query"
proof (cases "detect_query_type query = ''retrieval''")
  case False
  then show ?thesis by (simp add: rag_pipeline_with_def Let_def)
next
  case True
  show ?thesis
  proof (cases "action (parse_intent query) = Some ''sql''")
    case sql: True
    show ?thesis using True sql by (simp add: rag_pipeline_with_def Let_def)
  next
    case no: False
    show ?thesis using True no assms by (simp add: rag_pipeline_with_def Let_def)
  qed
qed

lemma run_query_try_no_shortcut:
  "run_query_try E query = run_query_try_with (retrieve_without_shortcut E) E query"
proof -
  have "run_query_try_with (retrieve_from_db E) E query =
        run_query_try_with (retrieve_without_shortcut E) E query"
    by (rule run_query_try_with_cong)
      (simp add: retrieve_from_db_split no_intent_no_shortcut)
  then show ?thesis by (simp add: run_query_try_with_self)
qed

lemma rag_pipeline_no_shortcut:
  "rag_pipeline E query = rag_pipeline_with (retrieve_without_shortcut E) E query"
proof -
  have "rag_pipeline_with (retrieve_from_db E) E query =
        rag_pipeline_with (retrieve_without_shortcut E) E query"
    by (rule rag_pipeline_with_cong)
      (simp add: retrieve_from_db_split no_intent_no_shortcut)
  then show ?thesis by (simp add: rag_pipeline_with_self)
qed

text \<open>
  C10. On every query, \<open>run_query\<close> and \<open>rag_pipeline\<close> are the pipelines whose
  retrieval engine has no name shortcut: they call \<open>retrieve_from_db\<close> only on a query
  that is classified \<open>retrieval\<close> and for which \<open>parse_intent\<close> returned no action, the
  guard of the shortcut is false on such a query, and the engine without the shortcut
  never executes the statement of the shortcut.
\<close>

theorem name_shortcut_never_taken:
  "run_query_try E query = run_query_try_with (retrieve_without_shortcut E) E query \<and>
   run_query E query s0 =
     (case run_query_try_with (retrieve_without_shortcut E) E query
             \<lparr>world = world s0, trace = trace s0, out = empty_result\<rparr> of
        (Inr _, s) \<Rightarrow> (out s, \<lparr>world = world s, trace = trace s\<rparr>)
      | (Inl e, s) \<Rightarrow> ((out s)\<lparr>error := Some e\<rparr>, \<lparr>world = world s, trace = trace s\<rparr>)) \<and>
   rag_pipeline E query s = rag_pipeline_with (retrieve_without_shortcut E) E query s \<and>
   (detect_query_type query = ''retrieval'' \<and> action (parse_intent query) \<noteq> Some ''sql'' \<longrightarrow>
      \<not> ((str_in ''name'' (lower query) \<or> str_in ''names'' (lower query)) \<and>
          any_in [''all'', ''list'', ''tell'', ''show'', ''just''] (lower query))) \<and>
   (\<exists>evs. trace (snd (retrieve_without_shortcut E q s)) = trace s @ evs \<and>
          Execute ''SELECT id, name FROM people_info;'' [] \<notin> set evs)"
proof -
  have c: "run_query E query s0 =
     (case run_query_try_with (retrieve_without_shortcut E) E query
             \<lparr>world = world s0, trace = trace s0, out = empty_result\<rparr> of
        (Inr _, s) \<Rightarrow> (out s, \<lparr>world = world s, trace = trace s\<rparr>)
      | (Inl e, s) \<Rightarrow> ((out s)\<lparr>error := Some e\<rparr>, \<lparr>world = world s, trace = trace s\<rparr>))"
    unfolding run_query_def run_query_try_no_shortcut ..
  have b: "rag_pipeline E query s = rag_pipeline_with (retrieve_without_shortcut E) E query s"
    by (simp add: rag_pipeline_no_shortcut)
  show ?thesis
    using run_query_try_no_shortcut[of E query] b c no_intent_no_shortcut[of query]
      retrieve_without_shortcut_trace[of E q s]
    by simp
qed

theorem name_shortcut_never_taken_witness:
  "run_query_try sample_env ''list all names'' =
     run_query_try_with (retrieve_without_shortcut sample_env) sample_env ''list all names'' \<and>
   rag_pipeline sample_env ''who is Asmi and Bob?'' start =
     rag_pipeline_with (retrieve_without_shortcut sample_env) sample_env
       ''who is Asmi and Bob?'' start \<and>
   detect_query_type ''who is Asmi and Bob?'' = ''retrieval'' \<and>
   action (parse_intent ''who is Asmi and Bob?'') = None \<and>
   \<not> ((str_in ''name'' (lower ''who is Asmi and Bob?'') \<or>
        str_in ''names'' (lower ''who is Asmi and Bob?'')) \<and>
       any_in [''all'', ''list'', ''tell'', ''show'', ''just''] (lower ''who is Asmi and Bob?''))"
proof -
  have a: "detect_query_type ''who is Asmi and Bob?'' = ''retrieval''"
    by code_simp
  have b: "action (parse_intent ''who is Asmi and Bob?'') = None"
    by code_simp
  then have c: "action (parse_intent ''who is Asmi and Bob?'') \<noteq> Some ''sql''"
    by simp
  from name_shortcut_never_taken
    [where E = sample_env and query = "''list all names''" and s = start and ?s0.0 = start
       and q = "''list all names''"]
  have d: "run_query_try sample_env ''list all names'' =
     run_query_try_with (retrieve_without_shortcut sample_env) sample_env ''list all names''"
    by (rule conjunct1)
  from name_shortcut_never_taken
    [where E = sample_env and query = "''who is Asmi and Bob?''" and s = start
       and ?s0.0 = start and q = "''who is Asmi and Bob?''"]
  have e: "rag_pipeline sample_env ''who is Asmi and Bob?'' start =
           rag_pipeline_with (retrieve_without_shortcut sample_env) sample_env
             ''who is Asmi and Bob?'' start"
    and f: "detect_query_type ''who is Asmi and Bob?'' = ''retrieval'' \<and>
            action (parse_intent ''who is Asmi and Bob?'') \<noteq> Some ''sql'' \<longrightarrow>
            \<not> ((str_in ''name'' (lower ''who is Asmi and Bob?'') \<or>
                 str_in ''names'' (lower ''who is Asmi and Bob?'')) \<and>
                any_in [''all'', ''list'', ''tell'', ''show'', ''just'']
                  (lower ''who is Asmi and Bob?''))"
    by blast+
  show ?thesis using a b c d e f by blast
qed

section \<open>What a computation leaves unchanged\<close>

lemma keeps_call: "keeps out (call ev f)"
  by (simp add: keeps_def call_def split: prod.splits)

lemma keeps_ret: "keeps g (ret a)"
  by (simp add: keeps_def ret_def)

lemma keeps_bindE:
  assumes "keeps g m" and "\<And>a. keeps g (f a)"
  shows "keeps g (bindE m f)"
  unfolding keeps_def
proof
  fix s
  obtain r s1 where m: "m s = (r, s1)" by (cases "m s")
  have g1: "g s1 = g s" using assms(1) m unfolding keeps_def by (metis snd_conv)
  show "g (snd (bindE m f s)) = g s"
  proof (cases r)
    case (Inl e)
    then show ?thesis using m g1 by (simp add: bindE_def)
  next
    case (Inr a)
    have "g (snd (f a s1)) = g s1" using assms(2)[of a] unfolding keeps_def by (rule spec)
    then show ?thesis using m Inr g1 by (simp add: bindE_def)
  qed
qed

lemma keeps_if:
  "(c \<Longrightarrow> keeps g a) \<Longrightarrow> (\<not> c \<Longrightarrow> keeps g b) \<Longrightarrow> keeps g (if c then a else b)"
  by simp

lemma keeps_rows:
  "(\<And>rows. keeps g (f rows)) \<Longrightarrow> (\<And>t. keeps g (h t)) \<Longrightarrow>
   keeps g (case r of Rows rows \<Rightarrow> f rows | Text t \<Rightarrow> h t)"
  by (cases r) simp_all

lemma keeps_raise: "keeps g (\<lambda>s. (Inl e, s))"
  by (simp add: keeps_def)

lemma keeps_token_loop: "keeps out (token_loop E tokens found)"
proof (induction tokens arbitrary: found)
  case Nil
  show ?case by (simp add: keeps_ret)
next
  case (Cons t ts)
  show ?case
    unfolding token_loop.simps Let_def execute_def fetchall_def
    by (intro keeps_bindE keeps_call Cons.IH)
qed

lemma keeps_execute_sql: "keeps out (execute_sql E stmt)"
  by (auto simp: keeps_def execute_sql_def bindE_def execute_def fetchall_def call_def
      split: prod.splits sum.splits)

lemma keeps_retrieve_from_db: "keeps out (retrieve_from_db E query)"
  unfolding retrieve_from_db_def Let_def execute_def fetchall_def
  by (intro keeps_if keeps_bindE keeps_call keeps_ret keeps_token_loop)

lemma keeps_generate_sql: "keeps out (generate_sql E query)"
  unfolding generate_sql_def Let_def
  by (intro keeps_bindE keeps_call keeps_ret)

lemma keeps_explain_sql_result: "keeps out (explain_sql_result E result query)"
  unfolding explain_sql_result_def Let_def by (rule keeps_call)

lemma keeps_generate_answer: "keeps out (generate_answer E user_query context)"
  unfolding generate_answer_def Let_def by (rule keeps_call)

lemma keeps_error: "keeps out m \<Longrightarrow> keeps (\<lambda>s. error (out s)) m"
  by (simp add: keeps_def)

lemma keeps_error_assign:
  "(\<And>r. error (f r) = error r) \<Longrightarrow> keeps (\<lambda>s. error (out s)) (assign f)"
  by (simp add: keeps_def assign_def)

text \<open>The body of the \<open>try\<close> statement never assigns to \<open>out["error"]\<close>.\<close>

lemma run_query_try_keeps_error: "keeps (\<lambda>s. error (out s)) (run_query_try E user_query)"
  unfolding run_query_try_def Let_def
  by (intro keeps_bindE keeps_if keeps_rows keeps_ret keeps_error_assign
      keeps_error[OF keeps_call] keeps_error[OF keeps_execute_sql]
      keeps_error[OF keeps_retrieve_from_db] keeps_error[OF keeps_generate_sql]
      keeps_error[OF keeps_explain_sql_result] keeps_error[OF keeps_generate_answer])
    (auto intro: keeps_error[OF keeps_execute_sql] keeps_raise split: option.splits)

section \<open>The result record of the pipeline\<close>

text \<open>
  C1, as stated, fails: \<open>run_query\<close> returns the very dict it has been filling, with
  \<open>error\<close> added. In the sample world the query \<open>Who is the oldest?\<close> is resolved to the
  \<open>MAX\<close> statement, which runs; the explanation then fails, and the result holds
  \<open>generated_sql\<close> and \<open>sql_result\<close> next to \<open>error\<close>.
\<close>

theorem partial_results_returned_with_error:
  "fst (run_query sample_env ''Who is the oldest?'' start) =
     \<lparr>generated_sql = Some ''SELECT MAX(age) FROM people_info;'',
      sql_result = Some (Rows []),
      retrieved_context = None,
      model_answer = None,
      error = Some ''service unavailable''\<rparr>"
  by code_simp

text \<open>
  C1, amended. \<open>error\<close> is populated exactly when an exception left the body of the
  \<open>try\<close> statement, with its message; the other four fields are returned as the body
  had assigned them up to that point, nothing is discarded.
\<close>

theorem run_query_error_iff_exception:
  assumes "run_query_try E query \<lparr>world = world s0, trace = trace s0, out = empty_result\<rparr> =
           (r, s)"
  shows "error (fst (run_query E query s0)) = (case r of Inl e \<Rightarrow> Some e | Inr _ \<Rightarrow> None) \<and>
         generated_sql (fst (run_query E query s0)) = generated_sql (out s) \<and>
         sql_result (fst (run_query E query s0)) = sql_result (out s) \<and>
         retrieved_context (fst (run_query E query s0)) = retrieved_context (out s) \<and>
         model_answer (fst (run_query E query s0)) = model_answer (out s)"
proof -
  have k: "error (out (snd (run_query_try E query i))) = error (out i)" for i
    using run_query_try_keeps_error[of E query] unfolding keeps_def by blast
  have e: "error (out s) = None"
    using k[of "\<lparr>world = world s0, trace = trace s0, out = empty_result\<rparr>"] assms
    by (simp add: empty_result_def)
  show ?thesis
    using assms e by (cases r) (simp_all add: run_query_def)
qed

theorem run_query_error_iff_exception_witness:
  "run_query_try sample_env ''Who is the oldest?''
     \<lparr>world = world start, trace = trace start, out = empty_result\<rparr> =
     (Inl ''service unavailable'',
      \<lparr>world = 1,
       trace = [Connect, Cursor, Execute ''SELECT MAX(age) FROM people_info;'' [], Fetchall,
                GenerateContent ''Based on this SQL result [], answer the question: Who is the oldest?''],
       out = \<lparr>generated_sql = Some ''SELECT MAX(age) FROM people_info;'',
              sql_result = Some (Rows []), retrieved_context = None,
              model_answer = None, error = None\<rparr>\<rparr>) \<and>
   error (fst (run_query sample_env ''Who is the oldest?'' start)) = Some ''service unavailable'' \<and>
   sql_result (fst (run_query sample_env ''Who is the oldest?'' start)) = Some (Rows [])"
proof -
  have a: "run_query_try sample_env ''Who is the oldest?''
     \<lparr>world = world start, trace = trace start, out = empty_result\<rparr> =
     (Inl ''service unavailable'',
      \<lparr>world = 1,
       trace = [Connect, Cursor, Execute ''SELECT MAX(age) FROM people_info;'' [], Fetchall,
                GenerateContent ''Based on this SQL result [], answer the question: Who is the oldest?''],
       out = \<lparr>generated_sql = Some ''SELECT MAX(age) FROM people_info;'',
              sql_result = Some (Rows []), retrieved_context = None,
              model_answer = None, error = None\<rparr>\<rparr>)"
    by code_simp
  show ?thesis
    using run_query_error_iff_exception[OF a] a by simp
qed

section \<open>Release of the connection\<close>

lemma emits_assign: "emits P (assign f)"
  by (simp add: emits_def assign_def)

lemma emits_rows:
  "(\<And>rows. emits P (f rows)) \<Longrightarrow> (\<And>t. emits P (h t)) \<Longrightarrow>
   emits P (case r of Rows rows \<Rightarrow> f rows | Text t \<Rightarrow> h t)"
  by (cases r) simp_all

lemma emits_py_print: "P (Print text) \<Longrightarrow> emits P (py_print text)"
  by (simp add: emits_def py_print_def)

lemma emits_raise: "emits P (\<lambda>s. (Inl e, s))"
  by (simp add: emits_def)

lemma emits_retrieve_from_db:
  assumes "P Fetchall" and "\<And>stmt ps. P (Execute stmt ps)"
  shows "emits P (retrieve_from_db E query)"
  unfolding retrieve_from_db_def Let_def execute_def fetchall_def
  by (intro emits_if emits_bindE emits_call emits_ret emits_token_loop assms)

lemma emits_generate_sql:
  assumes "\<And>p. P (GenerateContent p)"
  shows "emits P (generate_sql E query)"
  unfolding generate_sql_def Let_def
  by (intro emits_bindE emits_call emits_ret assms)

lemma emits_explain_sql_result:
  assumes "\<And>p. P (GenerateContent p)"
  shows "emits P (explain_sql_result E result query)"
  unfolding explain_sql_result_def Let_def by (intro emits_call assms)

lemma emits_generate_answer:
  assumes "\<And>p. P (GenerateContent p)"
  shows "emits P (generate_answer E user_query context)"
  unfolding generate_answer_def Let_def by (intro emits_call assms)

lemma releasesD:
  "releases m \<Longrightarrow> m s = (Inr a, s') \<Longrightarrow>
   \<exists>evs. trace s' = trace s @ evs @ [CursorClose, ConnClose] \<and>
         CursorClose \<notin> set evs \<and> ConnClose \<notin> set evs"
  unfolding releases_def by blast

lemma releases_close:
  "releases (bindE (call CursorClose f) (\<lambda>_. call ConnClose g))"
  unfolding releases_def
proof (intro allI impI)
  fix s a s'
  assume r: "bindE (call CursorClose f) (\<lambda>_. call ConnClose g) s = (Inr a, s')"
  from bindE_Inr[OF r] obtain u s1 where
    c1: "call CursorClose f s = (Inr u, s1)" and c2: "call ConnClose g s1 = (Inr a, s')"
    by blast
  have "trace s' = trace s @ [] @ [CursorClose, ConnClose]"
    using call_trace[OF c1] call_trace[OF c2] by simp
  then show "\<exists>evs. trace s' = trace s @ evs @ [CursorClose, ConnClose] \<and>
                   CursorClose \<notin> set evs \<and> ConnClose \<notin> set evs"
    by (metis empty_iff list.set(1))
qed

lemma releases_bindE:
  assumes "emits (\<lambda>ev. ev \<noteq> CursorClose \<and> ev \<noteq> ConnClose) m"
    and "\<And>a. releases (f a)"
  shows "releases (bindE m f)"
  unfolding releases_def
proof (intro allI impI)
  fix s b s'
  assume r: "bindE m f s = (Inr b, s')"
  from bindE_Inr[OF r] obtain a s1 where
    m: "m s = (Inr a, s1)" and f: "f a s1 = (Inr b, s')"
    by blast
  from emitsD[OF assms(1) m] obtain e1 where
    e1: "trace s1 = trace s @ e1" and
    l1: "list_all (\<lambda>ev. ev \<noteq> CursorClose \<and> ev \<noteq> ConnClose) e1"
    by blast
  from assms(2)[of a] f obtain e2 where
    e2: "trace s' = trace s1 @ e2 @ [CursorClose, ConnClose]" and
    n2: "CursorClose \<notin> set e2" "ConnClose \<notin> set e2"
    unfolding releases_def by blast
  have "trace s' = trace s @ (e1 @ e2) @ [CursorClose, ConnClose]"
    using e1 e2 by simp
  moreover have "CursorClose \<notin> set (e1 @ e2)" "ConnClose \<notin> set (e1 @ e2)"
    using l1 n2 by (auto simp: list_all_iff)
  ultimately show "\<exists>evs. trace s' = trace s @ evs @ [CursorClose, ConnClose] \<and>
                   CursorClose \<notin> set evs \<and> ConnClose \<notin> set evs"
    by blast
qed

lemma releases_if:
  "(c \<Longrightarrow> releases a) \<Longrightarrow> (\<not> c \<Longrightarrow> releases b) \<Longrightarrow> releases (if c then a else b)"
  by simp

lemma emits_option_execute_sql:
  assumes "P Fetchall" and "\<And>stmt ps. P (Execute stmt ps)"
  shows "emits P (case x of Some stmt \<Rightarrow> execute_sql E stmt | None \<Rightarrow> (\<lambda>s. (Inl e, s)))"
  by (cases x) (simp_all add: emits_raise emits_execute_sql assms)

text \<open>
  The paths of \<open>run_query\<close> that end without an exception close the cursor and the
  connection, once each and last.
\<close>

lemma run_query_try_releases: "releases (run_query_try E user_query)"
  unfolding run_query_try_def Let_def
  by (intro releases_bindE releases_if releases_close emits_bindE emits_if emits_rows
      emits_call emits_ret emits_assign emits_option_execute_sql emits_execute_sql
      emits_retrieve_from_db emits_generate_sql emits_explain_sql_result
      emits_generate_answer)
    simp_all

lemma rag_pipeline_releases: "releases (rag_pipeline E user_query)"
  unfolding rag_pipeline_def Let_def
  by (intro releases_bindE releases_if releases_close emits_bindE emits_if emits_rows
      emits_call emits_ret emits_py_print emits_option_execute_sql emits_execute_sql
      emits_retrieve_from_db emits_generate_sql emits_explain_sql_result
      emits_generate_answer)
    simp_all

lemma run_query_normal_exit_releases:
  assumes "error (fst (run_query E query s0)) = None"
  shows "\<exists>evs. trace (snd (run_query E query s0)) =
                 trace s0 @ evs @ [CursorClose, ConnClose] \<and>
               CursorClose \<notin> set evs \<and> ConnClose \<notin> set evs"
proof -
  let ?i = "\<lparr>world = world s0, trace = trace s0, out = empty_result\<rparr>"
  obtain r s where t: "run_query_try E query ?i = (r, s)"
    by (cases "run_query_try E query ?i")
  show ?thesis
  proof (cases r)
    case (Inl e)
    then show ?thesis using assms t by (simp add: run_query_def)
  next
    case (Inr u)
    have t': "run_query_try E query ?i = (Inr u, s)" using t Inr by simp
    from releasesD[OF run_query_try_releases t'] obtain evs where
      "trace s = trace s0 @ evs @ [CursorClose, ConnClose]"
      "CursorClose \<notin> set evs" "ConnClose \<notin> set evs"
      by auto
    then show ?thesis using t' by (simp add: run_query_def)
  qed
qed

text \<open>
  C2 fails on the code. \<open>run_query\<close> and \<open>rag_pipeline\<close> close the cursor and the
  connection at the end of their paths that end normally, and have no \<open>finally\<close>: an
  exception raised after the connection was acquired goes to the handler of
  \<open>run_query\<close>, which closes nothing, or leaves \<open>rag_pipeline\<close>. In the sample world,
  whose model service is down, the query \<open>how many people\<close> acquires the connection and
  the cursor, fails in \<open>generate_sql\<close>, and both functions end with neither closed.
\<close>

theorem connection_not_released_on_exception:
  "run_query sample_env ''how many people'' start =
     (\<lparr>generated_sql = None, sql_result = None, retrieved_context = None,
       model_answer = None, error = Some ''service unavailable''\<rparr>,
      \<lparr>world = 0,
       trace = [Connect, Cursor, GenerateContent (sql_prompt ''how many people'')]\<rparr>) \<and>
   CursorClose \<notin> set (trace (snd (run_query sample_env ''how many people'' start))) \<and>
   ConnClose \<notin> set (trace (snd (run_query sample_env ''how many people'' start))) \<and>
   rag_pipeline sample_env ''how many people'' start =
     (Inl ''service unavailable'',
      \<lparr>world = 0,
       trace = [Connect, Cursor, GenerateContent (sql_prompt ''how many people'')]\<rparr>)"
  by code_simp

text \<open>
  For contrast, a run of the sample world that ends normally: the query \<open>??\<close> finds no
  row and has no token, and the cursor and the connection are closed once each.
\<close>

lemma sample_normal_exit:
  "run_query sample_env ''??'' start =
    (\<lparr>generated_sql = None, sql_result = None, retrieved_context = None,
      model_answer = Some ''No relevant data found.'', error = None\<rparr>,
     \<lparr>world = 1,
      trace = [Connect, Cursor, wildcard_search ''??'', Fetchall, CursorClose, ConnClose]\<rparr>)"
  by code_simp

end
